theory Spec2Isabelle
  imports Main "HOL-Library.Word"
begin

unbundle bit_operations_syntax

section \<open>lib/thread\_with\_file.c: a worker thread behind a file descriptor\<close>

text \<open>
  The file connects a kernel thread (the worker) to a user-space caller through two byte
  buffers, \<open>input\<close> (caller to worker) and \<open>output\<close> (worker to caller), and a
  \<open>done\<close> flag. Every C function is a HOL function on an explicit state. What the
  function receives from outside itself is an argument of the model:
  \<^item> the actions of other threads while the function sleeps on a wait queue
    (a list of \<open>wake\<close> events, consumed while the wait condition is false);
  \<^item> the outcome of user-memory accesses and of allocations (one \<open>uaccess\<close> record for
    each iteration of a copy loop, one \<open>bool\<close> for each allocation attempt);
  \<^item> the results of the kernel services called by \<open>run_thread_with_file\<close>.
  A function that has not returned when these lists are used up has the value \<open>None\<close>.
  Sizes (\<open>size_t\<close>) are \<open>nat\<close>, return values (\<open>int\<close>, \<open>ssize_t\<close>) are \<open>int\<close>;
  the model does not wrap, as the C code does not while lengths stay below \<open>2^31\<close>.
\<close>

subsection \<open>Constants\<close>

definition STDIO_REDIRECT_BUFSIZE :: nat where
  "STDIO_REDIRECT_BUFSIZE = 4096"

text \<open>
  The errno values and poll bits come from the kernel's uapi headers, which are not
  among the sources; the values are those of the generic Linux ABI.
\<close>

definition EAGAIN :: int where "EAGAIN = 11"
definition ENOMEM :: int where "ENOMEM = 12"
definition EFAULT :: int where "EFAULT = 14"
definition EPIPE :: int where "EPIPE = 32"
definition ERESTARTSYS :: int where "ERESTARTSYS = 512"
definition MAX_ERRNO :: int where "MAX_ERRNO = 4095"

definition EPOLLIN :: "32 word" where "EPOLLIN = 0x001"
definition EPOLLOUT :: "32 word" where "EPOLLOUT = 0x004"
definition EPOLLERR :: "32 word" where "EPOLLERR = 0x008"
definition EPOLLHUP :: "32 word" where "EPOLLHUP = 0x010"

subsection \<open>darray\_char\<close>

text \<open>
  \<open>darray_char\<close> is \<open>struct { size_t nr, size; char *data; }\<close>: \<open>data\<close> holds the
  \<open>nr\<close> bytes in use (so \<open>nr\<close> is the length of \<open>data\<close>) and \<open>size_d\<close> is the number of
  bytes allocated. The macros of linux/darray.h are not among the sources. They are
  modelled after their use in this file: \<open>darray_room\<close> is \<open>size - nr\<close>,
  \<open>darray_remove_items\<close> is only ever called at the front of the array, and
  \<open>darray_make_room_gfp\<close> reallocates when \<open>nr + more\<close> exceeds \<open>size\<close>. The size a
  reallocation gives for a requested size is the parameter \<open>grow\<close>; whether the
  allocation succeeds is the argument \<open>ok\<close>. The result is the C return value
  (0 or \<open>-ENOMEM\<close>) and the array.
\<close>

record darray_char =
  data :: "char list"
  size_d :: nat

definition nr :: "darray_char \<Rightarrow> nat" where
  "nr d = length (data d)"

definition darray_init :: darray_char where
  "darray_init = \<lparr>data = [], size_d = 0\<rparr>"

definition darray_exit :: "darray_char \<Rightarrow> darray_char" where
  "darray_exit d = \<lparr>data = [], size_d = 0\<rparr>"

definition darray_room :: "darray_char \<Rightarrow> nat" where
  "darray_room d = size_d d - nr d"

definition darray_remove_items :: "darray_char \<Rightarrow> nat \<Rightarrow> darray_char" where
  "darray_remove_items d n = d\<lparr>data := drop n (data d)\<rparr>"

definition darray_make_room_gfp ::
  "(nat \<Rightarrow> nat) \<Rightarrow> bool \<Rightarrow> darray_char \<Rightarrow> nat \<Rightarrow> int \<times> darray_char" where
  "darray_make_room_gfp grow ok d n_more =
     (if nr d + n_more > size_d d
      then (if ok then (0, d\<lparr>size_d := grow (nr d + n_more)\<rparr>) else (- ENOMEM, d))
      else (0, d))"

text \<open>
  The kernel's allocation policy rounds the requested size up to a power of two.
  It is used below to instantiate \<open>grow\<close>.
\<close>

fun pow2_from :: "nat \<Rightarrow> nat \<Rightarrow> nat \<Rightarrow> nat" where
  "pow2_from 0 p n = p"
| "pow2_from (Suc k) p n = (if n \<le> p then p else pow2_from k (2 * p) n)"

definition roundup_pow_of_two :: "nat \<Rightarrow> nat" where
  "roundup_pow_of_two n = pow2_from n 1 n"

subsection \<open>stdio\_redirect\<close>

datatype wq = Input_wait | Output_wait

text \<open>
  \<open>struct stdio_redirect\<close> has the two buffers (\<open>input.buf\<close> and \<open>output.buf\<close>,
  here \<open>input_buf\<close> and \<open>output_buf\<close>) and the flag \<open>done\<close> (here \<open>done_stdio\<close>;
  the flag \<open>done\<close> of \<open>struct thread_with_file\<close> is \<open>done_thr\<close>).
  The locks are not modelled: each function runs without interruption except where it
  sleeps. \<open>woken\<close> records the calls of \<open>wake_up\<close>, oldest first, one entry for each
  call, naming the wait queue.
\<close>

record stdio_redirect =
  input_buf :: darray_char
  output_buf :: darray_char
  done_stdio :: bool
  woken :: "wq list"

definition wake_up :: "wq \<Rightarrow> stdio_redirect \<Rightarrow> stdio_redirect" where
  "wake_up q stdio = stdio\<lparr>woken := woken stdio @ [q]\<rparr>"

definition stdio_redirect_has_input :: "stdio_redirect \<Rightarrow> bool" where
  "stdio_redirect_has_input stdio \<longleftrightarrow> nr (input_buf stdio) \<noteq> 0 \<or> done_stdio stdio"

definition stdio_redirect_has_output :: "stdio_redirect \<Rightarrow> bool" where
  "stdio_redirect_has_output stdio \<longleftrightarrow> nr (output_buf stdio) \<noteq> 0 \<or> done_stdio stdio"

text \<open>
  The two space tests compare with \<open>STDIO_REDIRECT_BUFSIZE\<close>. The capacity is the
  parameter \<open>bufsize\<close> of every function that uses it, so that a scenario can be
  stated at a smaller capacity; the program is the instance at 4096.
\<close>

definition stdio_redirect_has_input_space :: "nat \<Rightarrow> stdio_redirect \<Rightarrow> bool" where
  "stdio_redirect_has_input_space bufsize stdio \<longleftrightarrow>
     nr (input_buf stdio) < bufsize \<or> done_stdio stdio"

definition stdio_redirect_has_output_space :: "nat \<Rightarrow> stdio_redirect \<Rightarrow> bool" where
  "stdio_redirect_has_output_space bufsize stdio \<longleftrightarrow>
     nr (output_buf stdio) < bufsize \<or> done_stdio stdio"

definition stdio_buf_init :: darray_char where
  "stdio_buf_init = darray_init"

subsection \<open>Sleeping on a wait queue\<close>

text \<open>
  While a function sleeps, other threads act on the shared state (\<open>Act f\<close>) or a signal
  arrives for the sleeper (\<open>Signal\<close>). \<open>wait_event\<close> returns as soon as the condition
  holds, without consuming further events; it ignores signals. A loop
  \<open>do wait_event_timeout(..) while (!cond)\<close> returns under the same condition and is
  modelled by \<open>wait_event\<close> too. \<open>wait_event_interruptible\<close> returns 0 when the
  condition holds and \<open>-ERESTARTSYS\<close> when a signal arrives first. \<open>None\<close>: the
  sleeper is never woken with the condition true.
\<close>

datatype 's wake = Signal | Act "'s \<Rightarrow> 's"

fun wait_event :: "('s \<Rightarrow> bool) \<Rightarrow> 's wake list \<Rightarrow> 's \<Rightarrow> ('s wake list \<times> 's) option" where
  "wait_event cond [] s = (if cond s then Some ([], s) else None)"
| "wait_event cond (e # es) s =
     (if cond s then Some (e # es, s)
      else case e of Signal \<Rightarrow> wait_event cond es s | Act f \<Rightarrow> wait_event cond es (f s))"

fun wait_event_interruptible ::
  "('s \<Rightarrow> bool) \<Rightarrow> 's wake list \<Rightarrow> 's \<Rightarrow> (int \<times> 's wake list \<times> 's) option" where
  "wait_event_interruptible cond [] s = (if cond s then Some (0, [], s) else None)"
| "wait_event_interruptible cond (e # es) s =
     (if cond s then Some (0, e # es, s)
      else case e of Signal \<Rightarrow> Some (- ERESTARTSYS, es, s)
                   | Act f \<Rightarrow> wait_event_interruptible cond es (f s))"

subsection \<open>The worker's side: read, readline, printf\<close>

text \<open>
  \<open>stdio_redirect_read\<close> returns the C return value, the bytes copied to \<open>ubuf\<close> and the
  state.
\<close>

definition stdio_redirect_read ::
  "stdio_redirect wake list \<Rightarrow> stdio_redirect \<Rightarrow> nat \<Rightarrow>
     (int \<times> char list \<times> stdio_redirect) option" where
  "stdio_redirect_read sched stdio len =
     (case wait_event stdio_redirect_has_input sched stdio of
        None \<Rightarrow> None
      | Some (sched', s) \<Rightarrow>
          if done_stdio s then Some (- 1, [], s)
          else let ret = min len (nr (input_buf s)) in
               Some (int ret, take ret (data (input_buf s)),
                     wake_up Input_wait (s\<lparr>input_buf := darray_remove_items (input_buf s) ret\<rparr>)))"

text \<open>\<open>memchr xs c n\<close>: the index of the first \<open>c\<close> among the first \<open>n\<close> bytes.\<close>

definition memchr :: "char list \<Rightarrow> char \<Rightarrow> nat \<Rightarrow> nat option" where
  "memchr xs c n =
     (let i = length (takeWhile (\<lambda>x. x \<noteq> c) (take n xs))
      in if i < length (take n xs) then Some i else None)"

lemma wait_event_cond:
  "wait_event cond sched s = Some (sched', s') \<Longrightarrow> cond s'"
  by (induction cond sched s rule: wait_event.induct) (auto split: if_splits wake.splits)

text \<open>
  \<open>stdio_redirect_readline\<close>: the label \<open>again\<close> is the recursion; \<open>acc\<close> is what has
  been copied to \<open>ubuf\<close> so far (\<open>copied\<close> is its length), \<open>len\<close> what is left of the
  caller's buffer. The last line is \<open>return copied ?: ret\<close>.
\<close>

function stdio_redirect_readline_again ::
  "stdio_redirect wake list \<Rightarrow> stdio_redirect \<Rightarrow> nat \<Rightarrow> char list \<Rightarrow>
     (int \<times> char list \<times> stdio_redirect) option" where
  "stdio_redirect_readline_again sched stdio len acc =
     (case wait_event stdio_redirect_has_input sched stdio of
        None \<Rightarrow> None
      | Some (sched', s) \<Rightarrow>
          if done_stdio s
          then Some (if length acc \<noteq> 0 then int (length acc) else - 1, acc, s)
          else let b0 = min len (nr (input_buf s));
                   n = memchr (data (input_buf s)) (CHR 0x0A) b0;
                   b = (case n of None \<Rightarrow> b0 | Some i \<Rightarrow> min b0 (i + 1));
                   acc' = acc @ take b (data (input_buf s));
                   s' = wake_up Input_wait (s\<lparr>input_buf := darray_remove_items (input_buf s) b\<rparr>)
               in if n = None \<and> len - b \<noteq> 0
                  then stdio_redirect_readline_again sched' s' (len - b) acc'
                  else Some (if length acc' \<noteq> 0 then int (length acc') else 0, acc', s'))"
  by pat_completeness auto
termination
proof (relation "measure (\<lambda>(sched, stdio, len, acc). len)", simp, goal_cases)
  case (1 sched stdio len acc x2 sched' s b0 n b acc' s')
  then have "stdio_redirect_has_input s"
    using wait_event_cond by metis
  with 1 have "nr (input_buf s) \<noteq> 0"
    by (simp add: stdio_redirect_has_input_def)
  with 1 show ?case by (auto simp: min_def split: if_splits)
qed

declare stdio_redirect_readline_again.simps [simp del]

definition stdio_redirect_readline ::
  "stdio_redirect wake list \<Rightarrow> stdio_redirect \<Rightarrow> nat \<Rightarrow>
     (int \<times> char list \<times> stdio_redirect) option" where
  "stdio_redirect_readline sched stdio len = stdio_redirect_readline_again sched stdio len []"

text \<open>
  \<open>vsnprintf\<close> (lib/vsprintf.c) is not among the sources. It is modelled by its
  contract: of the formatted text \<open>s\<close> it writes at most \<open>room - 1\<close> bytes and then a
  terminating NUL, nothing when \<open>room\<close> is 0, and it returns the length of \<open>s\<close>.
  The result is the bytes written at the destination and the return value.
\<close>

definition vsnprintf :: "nat \<Rightarrow> char list \<Rightarrow> char list \<times> nat" where
  "vsnprintf room s = (if room = 0 then [] else take (room - 1) s @ [CHR 0x00], length s)"

text \<open>
  \<open>darray_vprintf\<close>: the \<open>do .. while\<close> loop is the recursion. The loop calls
  \<open>darray_make_room_gfp\<close> only when \<open>len + 1 > darray_room\<close>, which is when the call has
  to allocate: each such call takes the next entry of \<open>allocs\<close>. After the loop,
  \<open>out->nr += min(len, darray_room(*out))\<close> makes that many of the bytes written at
  \<open>out->data + out->nr\<close> part of the array.
\<close>

fun darray_vprintf ::
  "(nat \<Rightarrow> nat) \<Rightarrow> bool list \<Rightarrow> darray_char \<Rightarrow> char list \<Rightarrow> darray_char option" where
  "darray_vprintf grow [] out s =
     (case vsnprintf (darray_room out) s of (w, len) \<Rightarrow>
        if len + 1 > darray_room out then None
        else Some (out\<lparr>data := data out @ take (min len (darray_room out)) w\<rparr>))"
| "darray_vprintf grow (ok # allocs) out s =
     (case vsnprintf (darray_room out) s of (w, len) \<Rightarrow>
        if len + 1 > darray_room out
        then (case darray_make_room_gfp grow ok out (len + 1) of (r, out') \<Rightarrow>
                if r = 0 then darray_vprintf grow allocs out' s
                else Some (out'\<lparr>data := data out' @ take (min len (darray_room out')) w\<rparr>))
        else Some (out\<lparr>data := data out @ take (min len (darray_room out)) w\<rparr>))"

text \<open>
  \<open>stdio_redirect_vprintf\<close> returns \<open>void\<close>: the model returns the state only.
  \<open>s\<close> is the text that \<open>fmt\<close> and \<open>args\<close> format to.
\<close>

definition stdio_redirect_vprintf ::
  "nat \<Rightarrow> (nat \<Rightarrow> nat) \<Rightarrow> bool list \<Rightarrow> stdio_redirect wake list \<Rightarrow>
     stdio_redirect \<Rightarrow> bool \<Rightarrow> char list \<Rightarrow> stdio_redirect option" where
  "stdio_redirect_vprintf bufsize grow allocs sched stdio nonblocking s =
     (case (if \<not> nonblocking
            then map_option snd (wait_event (stdio_redirect_has_output_space bufsize) sched stdio)
            else Some stdio) of
        None \<Rightarrow> None
      | Some st \<Rightarrow>
          if nonblocking \<and> \<not> stdio_redirect_has_output_space bufsize st then Some st
          else if done_stdio st then Some st
          else (case darray_vprintf grow allocs (output_buf st) s of
                  None \<Rightarrow> None
                | Some out \<Rightarrow> Some (wake_up Output_wait (st\<lparr>output_buf := out\<rparr>))))"

definition stdio_redirect_printf ::
  "nat \<Rightarrow> (nat \<Rightarrow> nat) \<Rightarrow> bool list \<Rightarrow> stdio_redirect wake list \<Rightarrow>
     stdio_redirect \<Rightarrow> bool \<Rightarrow> char list \<Rightarrow> stdio_redirect option" where
  "stdio_redirect_printf = stdio_redirect_vprintf"

subsection \<open>thread\_with\_file\<close>

text \<open>
  A kernel pointer is \<open>NULL\<close>, a valid pointer or an error pointer. \<open>ERR_PTR e\<close> is an
  error pointer when \<open>-MAX_ERRNO \<le> e < 0\<close> (\<open>IS_ERR\<close>). Tasks and files are named by
  numbers.
\<close>

datatype 'a ptr = NULL | Ptr 'a | ERR_PTR int

definition IS_ERR :: "'a ptr \<Rightarrow> bool" where
  "IS_ERR p = (case p of ERR_PTR e \<Rightarrow> - MAX_ERRNO \<le> e \<and> e < 0 | _ \<Rightarrow> False)"

definition PTR_ERR_OR_ZERO :: "'a ptr \<Rightarrow> int" where
  "PTR_ERR_OR_ZERO p = (case p of ERR_PTR e \<Rightarrow> if IS_ERR p then e else 0 | _ \<Rightarrow> 0)"

record thread_with_file =
  task :: "nat ptr"
  ret :: int
  done_thr :: bool

record file_operations =
  fops_read :: bool
  fops_write :: bool

definition O_RDONLY :: "32 word" where "O_RDONLY = 0"
definition O_WRONLY :: "32 word" where "O_WRONLY = 1"
definition O_RDWR :: "32 word" where "O_RDWR = 2"
definition O_CLOEXEC :: "32 word" where "O_CLOEXEC = 0x80000"

text \<open>The calls into the rest of the kernel, in the order they are made.\<close>

datatype kcall =
    Kthread_create
  | Kthread_stop "nat ptr"
  | Get_task_struct "nat ptr"
  | Put_task_struct "nat ptr"
  | Wake_up_process "nat ptr"
  | Get_unused_fd_flags "32 word"
  | Put_unused_fd int
  | Anon_inode_getfile "32 word"
  | Fd_install int "nat ptr"
  | Exit_callback

definition thread_with_file_exit :: "thread_with_file \<Rightarrow> kcall list" where
  "thread_with_file_exit thr =
     (if task thr \<noteq> NULL then [Kthread_stop (task thr), Put_task_struct (task thr)] else [])"

text \<open>
  \<open>run_thread_with_file\<close>: \<open>kt\<close> is what \<open>kthread_create\<close> returns, \<open>gfd\<close> what
  \<open>get_unused_fd_flags\<close> returns and \<open>af\<close> what \<open>anon_inode_getfile\<close> returns.
  \<open>run_thread_with_file_err\<close> is the code at the label \<open>err\<close>.
\<close>

definition run_thread_with_file_err ::
  "int \<Rightarrow> int \<Rightarrow> thread_with_file \<Rightarrow> kcall list" where
  "run_thread_with_file_err r fd thr =
     (if fd \<ge> 0 then [Put_unused_fd fd] else []) @
     (if task thr \<noteq> NULL then [Kthread_stop (task thr)] else [])"

definition run_thread_with_file ::
  "nat ptr \<Rightarrow> int \<Rightarrow> nat ptr \<Rightarrow> thread_with_file \<Rightarrow> file_operations \<Rightarrow>
     int \<times> thread_with_file \<times> kcall list" where
  "run_thread_with_file kt gfd af thr fops =
     (let fd_flags = (if fops_read fops \<and> fops_write fops then O_CLOEXEC OR O_RDWR
                      else if fops_read fops then O_CLOEXEC OR O_RDONLY
                      else if fops_write fops then O_CLOEXEC OR O_WRONLY
                      else O_CLOEXEC);
          thr1 = thr\<lparr>task := kt, ret := 0\<rparr>;
          r = PTR_ERR_OR_ZERO (task thr1)
      in if r \<noteq> 0 then (r, thr1, [Kthread_create])
         else if gfd < 0
         then (gfd, thr1, [Kthread_create, Get_unused_fd_flags fd_flags] @
                 run_thread_with_file_err gfd (- 1) thr1)
         else if PTR_ERR_OR_ZERO af \<noteq> 0
         then (PTR_ERR_OR_ZERO af, thr1,
                 [Kthread_create, Get_unused_fd_flags fd_flags, Anon_inode_getfile fd_flags] @
                 run_thread_with_file_err (PTR_ERR_OR_ZERO af) gfd thr1)
         else (gfd, thr1,
                 [Kthread_create, Get_unused_fd_flags fd_flags, Anon_inode_getfile fd_flags,
                  Get_task_struct (task thr1), Wake_up_process (task thr1), Fd_install gfd af]))"

subsection \<open>thread\_with\_stdio\<close>

record thread_with_stdio =
  thr :: thread_with_file
  stdio :: stdio_redirect

definition thread_with_stdio_done :: "thread_with_stdio \<Rightarrow> thread_with_stdio" where
  "thread_with_stdio_done t =
     t\<lparr>thr := (thr t)\<lparr>done_thr := True\<rparr>,
       stdio := wake_up Output_wait (wake_up Input_wait ((stdio t)\<lparr>done_stdio := True\<rparr>))\<rparr>"

text \<open>
  One \<open>uaccess\<close> record for each iteration of a copy loop: what \<open>fault_in_readable\<close>
  or \<open>fault_in_writeable\<close> returns (the number of bytes that could not be faulted in,
  at most \<open>len\<close>), whether an allocation in this iteration succeeds, and whether
  \<open>copy_from_user_nofault\<close> or \<open>copy_to_user_nofault\<close> succeeds (returns 0).
\<close>

record uaccess =
  fault_in :: nat
  alloc_ok :: bool
  nofault_ok :: bool

definition fault_in_bytes :: "uaccess \<Rightarrow> nat \<Rightarrow> nat" where
  "fault_in_bytes u len = min (fault_in u) len"

text \<open>
  \<open>thread_with_stdio_read\<close>: the \<open>while\<close> loop is \<open>thread_with_stdio_read_loop\<close>,
  which returns \<open>ret\<close>, the bytes copied to the caller and the state; \<open>acc\<close> is what
  has been copied so far. An iteration whose copy fails changes nothing and the loop
  tries again.
\<close>

fun thread_with_stdio_read_loop ::
  "uaccess list \<Rightarrow> thread_with_stdio \<Rightarrow> nat \<Rightarrow> char list \<Rightarrow>
     (int \<times> char list \<times> thread_with_stdio) option" where
  "thread_with_stdio_read_loop [] t len acc =
     (if len \<noteq> 0 \<and> nr (output_buf (stdio t)) \<noteq> 0 then None else Some (0, acc, t))"
| "thread_with_stdio_read_loop (u # us) t len acc =
     (if len \<noteq> 0 \<and> nr (output_buf (stdio t)) \<noteq> 0
      then if fault_in_bytes u len = len then Some (- EFAULT, acc, t)
           else let buf = output_buf (stdio t);
                    b = min len (nr buf)
                in if b \<noteq> 0 \<and> nofault_ok u
                   then thread_with_stdio_read_loop us
                          (t\<lparr>stdio := (stdio t)\<lparr>output_buf := darray_remove_items buf b\<rparr>\<rparr>)
                          (len - b) (acc @ take b (data buf))
                   else thread_with_stdio_read_loop us t len acc
      else Some (0, acc, t))"

definition thread_with_stdio_read ::
  "uaccess list \<Rightarrow> thread_with_stdio wake list \<Rightarrow> bool \<Rightarrow> thread_with_stdio \<Rightarrow> nat \<Rightarrow>
     (int \<times> char list \<times> thread_with_stdio) option" where
  "thread_with_stdio_read us sched nonblock t len =
     (case (if \<not> nonblock
            then (case wait_event_interruptible (\<lambda>t. stdio_redirect_has_output (stdio t)) sched t of
                    None \<Rightarrow> None
                  | Some (r, sched', t') \<Rightarrow> Some (r, t'))
            else if \<not> stdio_redirect_has_output (stdio t) then Some (- EAGAIN, t)
            else Some (0, t)) of
        None \<Rightarrow> None
      | Some (r, t') \<Rightarrow>
          if r \<noteq> 0 then Some (r, [], t')
          else (case thread_with_stdio_read_loop us t' len [] of
                  None \<Rightarrow> None
                | Some (r', acc, t'') \<Rightarrow>
                    Some (if length acc \<noteq> 0 then int (length acc) else r', acc, t'')))"

text \<open>
  \<open>thread_with_stdio_write\<close>: the \<open>while (len)\<close> loop is
  \<open>thread_with_stdio_write_loop\<close>; \<open>ubuf\<close> is the part of the caller's buffer still to
  be written (\<open>len\<close> is its length). The loop returns \<open>copied\<close>, \<open>ret\<close> and the state.
  The tests of \<open>len\<close> and of \<open>thr->thr.done\<close> come before anything is taken from
  outside. \<open>thread_with_stdio_write_step\<close> is the part of the loop body under the lock:
  it returns \<open>b\<close>, whether the copy was made, and the buffer.
\<close>

definition thread_with_stdio_write_step ::
  "nat \<Rightarrow> (nat \<Rightarrow> nat) \<Rightarrow> uaccess \<Rightarrow> darray_char \<Rightarrow> char list \<Rightarrow> nat \<Rightarrow>
     nat \<times> bool \<times> darray_char" where
  "thread_with_stdio_write_step bufsize grow u buf ubuf b0 =
     (let buf1 = (if nr buf < bufsize
                  then snd (darray_make_room_gfp grow (alloc_ok u) buf (min b0 (bufsize - nr buf)))
                  else buf);
          b = min (length ubuf) (darray_room buf1)
      in if b \<noteq> 0 \<and> nofault_ok u
         then (b, True, buf1\<lparr>data := data buf1 @ take b ubuf\<rparr>)
         else (b, False, buf1))"

fun thread_with_stdio_write_loop ::
  "nat \<Rightarrow> (nat \<Rightarrow> nat) \<Rightarrow> uaccess list \<Rightarrow> thread_with_stdio wake list \<Rightarrow> bool \<Rightarrow>
     thread_with_stdio \<Rightarrow> char list \<Rightarrow> nat \<Rightarrow> (nat \<times> int \<times> thread_with_stdio) option" where
  "thread_with_stdio_write_loop bufsize grow [] sched nonblock t ubuf copied =
     (if length ubuf = 0 then Some (copied, 0, t)
      else if done_thr (thr t) then Some (copied, - EPIPE, t)
      else None)"
| "thread_with_stdio_write_loop bufsize grow (u # us) sched nonblock t ubuf copied =
     (if length ubuf = 0 then Some (copied, 0, t)
      else if done_thr (thr t) then Some (copied, - EPIPE, t)
      else let b0 = length ubuf - fault_in_bytes u (length ubuf)
           in if b0 = 0 then Some (copied, - EFAULT, t)
              else (case thread_with_stdio_write_step bufsize grow u (input_buf (stdio t)) ubuf b0 of
                (b, cp, buf) \<Rightarrow>
                  let t1 = t\<lparr>stdio := (stdio t)\<lparr>input_buf := buf\<rparr>\<rparr>;
                      ubuf' = (if cp then drop b ubuf else ubuf);
                      copied' = (if cp then copied + b else copied)
                  in if b \<noteq> 0
                     then thread_with_stdio_write_loop bufsize grow us sched nonblock
                            (t1\<lparr>stdio := wake_up Input_wait (stdio t1)\<rparr>) ubuf' copied'
                     else if nonblock then Some (copied', - EAGAIN, t1)
                     else (case wait_event_interruptible
                                 (\<lambda>t. stdio_redirect_has_input_space bufsize (stdio t)) sched t1 of
                             None \<Rightarrow> None
                           | Some (r, sched', t2) \<Rightarrow>
                               if r \<noteq> 0 then Some (copied', r, t2)
                               else thread_with_stdio_write_loop bufsize grow us sched' nonblock
                                      t2 ubuf' copied')))"

definition thread_with_stdio_write ::
  "nat \<Rightarrow> (nat \<Rightarrow> nat) \<Rightarrow> uaccess list \<Rightarrow> thread_with_stdio wake list \<Rightarrow> bool \<Rightarrow>
     thread_with_stdio \<Rightarrow> char list \<Rightarrow> (int \<times> thread_with_stdio) option" where
  "thread_with_stdio_write bufsize grow us sched nonblock t ubuf =
     (case thread_with_stdio_write_loop bufsize grow us sched nonblock t ubuf 0 of
        None \<Rightarrow> None
      | Some (copied, r, t') \<Rightarrow> Some (if copied \<noteq> 0 then int copied else r, t'))"

definition thread_with_stdio_poll :: "nat \<Rightarrow> thread_with_stdio \<Rightarrow> 32 word" where
  "thread_with_stdio_poll bufsize t =
     (let mask = 0;
          mask = (if stdio_redirect_has_output (stdio t) then mask OR EPOLLIN else mask);
          mask = (if stdio_redirect_has_input_space bufsize (stdio t)
                  then mask OR EPOLLOUT else mask);
          mask = (if done_thr (thr t) then mask OR (EPOLLHUP OR EPOLLERR) else mask)
      in mask)"

text \<open>
  \<open>thread_with_stdio_release\<close> returns 0, the state and the kernel calls it makes;
  the last of them is the caller's \<open>exit\<close> callback.
\<close>

definition thread_with_stdio_release ::
  "thread_with_stdio \<Rightarrow> int \<times> thread_with_stdio \<times> kcall list" where
  "thread_with_stdio_release t =
     (let t1 = thread_with_stdio_done t;
          ks = thread_with_file_exit (thr t1);
          t2 = t1\<lparr>stdio := (stdio t1)\<lparr>input_buf := darray_exit (input_buf (stdio t1)),
                                       output_buf := darray_exit (output_buf (stdio t1))\<rparr>\<rparr>
      in (0, t2, ks @ [Exit_callback]))"

text \<open>\<open>thread_with_stdio_fn\<close>: \<open>fn\<close> is the worker's function, \<open>thr->fn\<close>.\<close>

definition thread_with_stdio_fn ::
  "(thread_with_stdio \<Rightarrow> thread_with_stdio) \<Rightarrow> thread_with_stdio \<Rightarrow> int \<times> thread_with_stdio" where
  "thread_with_stdio_fn fn t = (0, thread_with_stdio_done (fn t))"

definition run_thread_with_stdio ::
  "nat ptr \<Rightarrow> int \<Rightarrow> nat ptr \<Rightarrow> thread_with_stdio \<Rightarrow> int \<times> thread_with_stdio \<times> kcall list" where
  "run_thread_with_stdio kt gfd af t =
     (let t1 = t\<lparr>stdio := (stdio t)\<lparr>input_buf := stdio_buf_init, output_buf := stdio_buf_init\<rparr>\<rparr>
      in case run_thread_with_file kt gfd af (thr t1) \<lparr>fops_read = True, fops_write = True\<rparr> of
           (r, thr', ks) \<Rightarrow> (r, t1\<lparr>thr := thr'\<rparr>, ks))"

subsection \<open>Invariants\<close>

text \<open>
  An array is within the capacity when it uses no more than is allocated and no more
  than \<open>bufsize\<close> is allocated. Under \<open>nr \<le> size\<close> the subtraction in \<open>darray_room\<close>
  is the one the C code computes. A handle is closed when both flags are set;
  \<open>thread_with_stdio_done\<close> is the only code that writes them, and it sets both.
  \<open>rely P sched\<close>: the actions of the other threads in \<open>sched\<close> keep \<open>P\<close>.
\<close>

definition darray_within :: "nat \<Rightarrow> darray_char \<Rightarrow> bool" where
  "darray_within bufsize d \<longleftrightarrow> nr d \<le> size_d d \<and> size_d d \<le> bufsize"

definition input_inv :: "nat \<Rightarrow> thread_with_stdio \<Rightarrow> bool" where
  "input_inv bufsize t \<longleftrightarrow> darray_within bufsize (input_buf (stdio t))"

definition closed :: "thread_with_stdio \<Rightarrow> bool" where
  "closed t \<longleftrightarrow> done_thr (thr t) \<and> done_stdio (stdio t)"

definition rely :: "('s \<Rightarrow> bool) \<Rightarrow> 's wake list \<Rightarrow> bool" where
  "rely P sched \<longleftrightarrow> (\<forall>f. Act f \<in> set sched \<longrightarrow> (\<forall>s. P s \<longrightarrow> P (f s)))"

subsection \<open>States used in the examples\<close>

text \<open>
  \<open>mk_stdio inp isz out osz d\<close> is a channel whose input holds \<open>inp\<close> in \<open>isz\<close>
  allocated bytes, whose output holds \<open>out\<close> in \<open>osz\<close> allocated bytes and whose flag
  is \<open>d\<close>; \<open>mk_thread d s\<close> is a handle with a running task, \<open>thr.done = d\<close> and the
  channel \<open>s\<close>. \<open>ok_access\<close>: every byte is accessible, allocation and copy succeed.
\<close>

definition mk_stdio :: "char list \<Rightarrow> nat \<Rightarrow> char list \<Rightarrow> nat \<Rightarrow> bool \<Rightarrow> stdio_redirect" where
  "mk_stdio inp isz out osz d =
     \<lparr>input_buf = \<lparr>data = inp, size_d = isz\<rparr>, output_buf = \<lparr>data = out, size_d = osz\<rparr>,
      done_stdio = d, woken = []\<rparr>"

definition mk_thread :: "bool \<Rightarrow> stdio_redirect \<Rightarrow> thread_with_stdio" where
  "mk_thread d s = \<lparr>thr = \<lparr>task = Ptr 1, ret = 0, done_thr = d\<rparr>, stdio = s\<rparr>"

definition ok_access :: uaccess where
  "ok_access = \<lparr>fault_in = 0, alloc_ok = True, nofault_ok = True\<rparr>"

section \<open>Properties\<close>

subsection \<open>Waiting\<close>

lemma wait_event_now: "cond s \<Longrightarrow> wait_event cond sched s = Some (sched, s)"
  by (cases sched) auto

lemma wait_event_interruptible_now:
  "cond s \<Longrightarrow> wait_event_interruptible cond sched s = Some (0, sched, s)"
  by (cases sched) auto

lemmas errno_defs = EAGAIN_def ENOMEM_def EFAULT_def EPIPE_def ERESTARTSYS_def

lemma wait_event_interruptible_ret:
  "wait_event_interruptible cond sched s = Some (r, sched', s') \<Longrightarrow> r = 0 \<or> r = - ERESTARTSYS"
  by (induction cond sched s rule: wait_event_interruptible.induct)
     (auto split: if_splits wake.splits)

lemma rely_Cons: "rely P (e # es) \<Longrightarrow> rely P es"
  by (simp add: rely_def)

lemma wait_event_interruptible_rely:
  "wait_event_interruptible cond sched s = Some (r, sched', s') \<Longrightarrow> P s \<Longrightarrow> rely P sched \<Longrightarrow>
   P s' \<and> rely P sched'"
proof (induction cond sched s rule: wait_event_interruptible.induct)
  case (1 cond s)
  then show ?case by (auto split: if_splits)
next
  case (2 cond e es s)
  show ?case
  proof (cases "cond s")
    case True
    with 2 show ?thesis by auto
  next
    case False
    show ?thesis
    proof (cases e)
      case Signal
      with 2 False show ?thesis by (auto simp: rely_def)
    next
      case (Act f)
      with 2 False have "P (f s)" "rely P es" by (auto simp: rely_def)
      with 2 False Act show ?thesis by auto
    qed
  qed
qed

lemma wait_event_rely:
  "wait_event cond sched s = Some (sched', s') \<Longrightarrow> P s \<Longrightarrow> rely P sched \<Longrightarrow>
   P s' \<and> rely P sched'"
proof (induction sched arbitrary: s)
  case Nil
  then show ?case by (auto split: if_splits)
next
  case (Cons e es)
  have r: "rely P es" using Cons.prems(3) by (rule rely_Cons)
  show ?case
  proof (cases "cond s")
    case True
    with Cons.prems show ?thesis by simp
  next
    case False
    show ?thesis
    proof (cases e)
      case Signal
      with Cons.prems(1) False have "wait_event cond es s = Some (sched', s')" by simp
      from Cons.IH [OF this Cons.prems(2) r] show ?thesis .
    next
      case (Act f)
      with Cons.prems(1) False have w: "wait_event cond es (f s) = Some (sched', s')" by simp
      have "P (f s)" using Cons.prems(2,3) Act by (simp add: rely_def)
      from Cons.IH [OF w this r] show ?thesis .
    qed
  qed
qed

lemma wait_event_sched_subset:
  "wait_event cond sched s = Some (sched', s') \<Longrightarrow> set sched' \<subseteq> set sched"
proof (induction sched arbitrary: s)
  case Nil
  then show ?case by (auto split: if_splits)
next
  case (Cons e es)
  show ?case
  proof (cases "cond s")
    case True
    with Cons.prems show ?thesis by simp
  next
    case False
    show ?thesis
    proof (cases e)
      case Signal
      with Cons.prems False have "wait_event cond es s = Some (sched', s')" by simp
      from Cons.IH [OF this] show ?thesis by auto
    next
      case (Act f)
      with Cons.prems False have "wait_event cond es (f s) = Some (sched', s')" by simp
      from Cons.IH [OF this] show ?thesis by auto
    qed
  qed
qed

lemma wait_event_interruptible_sched_subset:
  "wait_event_interruptible cond sched s = Some (r, sched', s') \<Longrightarrow> set sched' \<subseteq> set sched"
proof (induction sched arbitrary: s)
  case Nil
  then show ?case by (auto split: if_splits)
next
  case (Cons e es)
  show ?case
  proof (cases "cond s")
    case True
    with Cons.prems show ?thesis by simp
  next
    case False
    show ?thesis
    proof (cases e)
      case Signal
      with Cons.prems False show ?thesis by auto
    next
      case (Act f)
      with Cons.prems False have "wait_event_interruptible cond es (f s) = Some (r, sched', s')"
        by simp
      from Cons.IH [OF this] show ?thesis by auto
    qed
  qed
qed

lemma rely_subset: "rely P sched \<Longrightarrow> set sched' \<subseteq> set sched \<Longrightarrow> rely P sched'"
  by (auto simp: rely_def)

subsection \<open>Reading from a closed channel\<close>

text \<open>
  C1 (as stated, refuted). The claim: a \<open>stdio_redirect_read\<close> on a closed channel whose
  input still holds bytes consumes up to \<open>len\<close> of them and returns their number.
  The code tests \<open>stdio->done\<close> before it looks at the buffer: with \<open>abc\<close> buffered on
  a closed channel, a read of 2 bytes returns -1, copies nothing and leaves the three
  bytes where they are.
\<close>

theorem stdio_redirect_read_closed_counterexample:
  "stdio_redirect_read [] (mk_stdio ''abc'' 8 [] 0 True) 2
     = Some (- 1, [], mk_stdio ''abc'' 8 [] 0 True)"
  by (simp add: stdio_redirect_read_def stdio_redirect_has_input_def mk_stdio_def)

text \<open>
  C1 (amended). On a closed channel \<open>stdio_redirect_read\<close> returns -1 and changes
  nothing, whatever the input buffer holds. On an open channel whose input holds
  \<open>n > 0\<close> bytes it consumes the first \<open>min len n\<close> bytes, wakes the input queue and
  returns their number. Whenever it returns, under any actions of other threads, it
  returns -1 exactly when the channel is closed, and otherwise the number of bytes it
  copied, at most \<open>len\<close>.
\<close>

theorem stdio_redirect_read_result:
  "(done_stdio s \<longrightarrow> stdio_redirect_read sched s len = Some (- 1, [], s)) \<and>
   (\<not> done_stdio s \<and> nr (input_buf s) \<noteq> 0 \<longrightarrow>
      stdio_redirect_read sched s len =
        Some (int (min len (nr (input_buf s))), take len (data (input_buf s)),
              s\<lparr>input_buf := (input_buf s)\<lparr>data := drop len (data (input_buf s))\<rparr>,
                woken := woken s @ [Input_wait]\<rparr>)) \<and>
   (\<forall>r bs s'. stdio_redirect_read sched s len = Some (r, bs, s') \<longrightarrow>
      (r = - 1 \<longleftrightarrow> done_stdio s') \<and>
      (r \<noteq> - 1 \<longrightarrow> r = int (length bs) \<and> length bs \<le> len))"
proof (intro conjI impI allI)
  assume "done_stdio s"
  then show "stdio_redirect_read sched s len = Some (- 1, [], s)"
    by (simp add: stdio_redirect_read_def wait_event_now stdio_redirect_has_input_def)
next
  assume "\<not> done_stdio s \<and> nr (input_buf s) \<noteq> 0"
  then show "stdio_redirect_read sched s len =
        Some (int (min len (nr (input_buf s))), take len (data (input_buf s)),
              s\<lparr>input_buf := (input_buf s)\<lparr>data := drop len (data (input_buf s))\<rparr>,
                woken := woken s @ [Input_wait]\<rparr>)"
    by (simp add: stdio_redirect_read_def wait_event_now stdio_redirect_has_input_def
        wake_up_def darray_remove_items_def nr_def Let_def min_def)
next
  fix r bs s'
  assume a: "stdio_redirect_read sched s len = Some (r, bs, s')"
  show "r = - 1 \<longleftrightarrow> done_stdio s'"
    using a by (auto simp: stdio_redirect_read_def wake_up_def Let_def
        split: option.splits if_splits)
next
  fix r bs s'
  assume a: "stdio_redirect_read sched s len = Some (r, bs, s')" and "r \<noteq> - 1"
  then show "r = int (length bs)"
    by (auto simp: stdio_redirect_read_def wake_up_def Let_def nr_def min_def
        split: option.splits if_splits)
next
  fix r bs s'
  assume a: "stdio_redirect_read sched s len = Some (r, bs, s')" and "r \<noteq> - 1"
  then show "length bs \<le> len"
    by (auto simp: stdio_redirect_read_def wake_up_def Let_def nr_def min_def
        split: option.splits if_splits)
qed

theorem stdio_redirect_read_result_witness:
  "done_stdio (mk_stdio ''abc'' 8 [] 0 True) \<and>
   stdio_redirect_read [] (mk_stdio ''abc'' 8 [] 0 True) 2
     = Some (- 1, [], mk_stdio ''abc'' 8 [] 0 True) \<and>
   \<not> done_stdio (mk_stdio ''abc'' 8 [] 0 False) \<and>
   nr (input_buf (mk_stdio ''abc'' 8 [] 0 False)) \<noteq> 0 \<and>
   stdio_redirect_read [] (mk_stdio ''abc'' 8 [] 0 False) 2
     = Some (2, ''ab'', (mk_stdio ''c'' 8 [] 0 False)\<lparr>woken := [Input_wait]\<rparr>)"
  using stdio_redirect_read_result [of "mk_stdio ''abc'' 8 [] 0 True" "[]" 2]
    stdio_redirect_read_result [of "mk_stdio ''abc'' 8 [] 0 False" "[]" 2]
  by (simp add: nr_def mk_stdio_def)

subsection \<open>Reading a line\<close>

lemma memchr_None: "memchr xs c n = None \<Longrightarrow> c \<notin> set (take n xs)"
proof -
  assume a: "memchr xs c n = None"
  then have "length (takeWhile (\<lambda>x. x \<noteq> c) (take n xs)) = length (take n xs)"
    using length_takeWhile_le [of "\<lambda>x. x \<noteq> c" "take n xs"]
    by (auto simp: memchr_def Let_def split: if_splits)
  then have "takeWhile (\<lambda>x. x \<noteq> c) (take n xs) = take n xs"
    by (metis takeWhile_eq_take take_all order_refl)
  then show ?thesis by (metis (mono_tags, lifting) takeWhile_eq_all_conv)
qed

lemma memchr_Some:
  "memchr xs c n = Some i \<Longrightarrow> i < n \<and> i < length xs \<and> xs ! i = c \<and> c \<notin> set (take i xs)"
proof -
  assume a: "memchr xs c n = Some i"
  let ?ys = "take n xs"
  from a have i: "i = length (takeWhile (\<lambda>x. x \<noteq> c) ?ys)" and lt: "i < length ?ys"
    by (auto simp: memchr_def Let_def split: if_splits)
  from lt have 1: "i < n" "i < length xs" by auto
  from i lt have "?ys ! i = c"
    using nth_length_takeWhile [of "\<lambda>x. x \<noteq> c" ?ys] by auto
  with 1 have 2: "xs ! i = c" by simp
  have "take i ?ys = takeWhile (\<lambda>x. x \<noteq> c) ?ys"
    using i by (metis takeWhile_eq_take)
  then have "c \<notin> set (take i ?ys)"
    by (metis (mono_tags, lifting) set_takeWhileD)
  moreover have "take i ?ys = take i xs" using 1 by (simp add: min_def)
  ultimately show ?thesis using 1 2 by simp
qed

lemma readline_final_chunk:
  assumes nd: "n \<noteq> None \<or> len - b = 0"
    and n: "n = memchr xs (CHR 0x0A) b0" and b0: "b0 = min len (length xs)"
    and b: "b = (case n of None \<Rightarrow> b0 | Some i \<Rightarrow> min b0 (i + 1))"
  shows "length (take b xs) \<le> len \<and> CHR 0x0A \<notin> set (butlast (take b xs)) \<and>
         ((take b xs \<noteq> [] \<and> last (take b xs) = CHR 0x0A) \<or> length (take b xs) = len)"
proof (cases n)
  case None
  with nd b b0 have "b = b0" "len \<le> b" by auto
  with b0 have bl: "b = len" "len \<le> length xs" by (auto simp: min_def split: if_splits)
  from None n have "CHR 0x0A \<notin> set (take b0 xs)" using memchr_None by metis
  then have "CHR 0x0A \<notin> set (butlast (take b xs))"
    using \<open>b = b0\<close> by (meson in_set_butlastD)
  with bl show ?thesis by simp
next
  case (Some i)
  with n have i: "i < b0" "i < length xs" "xs ! i = CHR 0x0A" "CHR 0x0A \<notin> set (take i xs)"
    using memchr_Some [of xs "CHR 0x0A" b0 i] by auto
  with Some b have bi: "b = Suc i" by (simp add: min_def)
  have t: "take b xs = take i xs @ [xs ! i]"
    using bi i by (simp add: take_Suc_conv_app_nth)
  have "length (take b xs) \<le> len" using bi i b0 by simp
  with t i show ?thesis by simp
qed

lemma readline_again_post:
  "stdio_redirect_readline_again sched s len acc = Some (r, bs, s') \<Longrightarrow>
   CHR 0x0A \<notin> set acc \<Longrightarrow>
   \<exists>cs. bs = acc @ cs \<and> length cs \<le> len \<and> CHR 0x0A \<notin> set (butlast cs) \<and>
        r = (if bs \<noteq> [] then int (length bs) else if done_stdio s' then - 1 else 0) \<and>
        (done_stdio s' \<or> (cs \<noteq> [] \<and> last cs = CHR 0x0A) \<or> length cs = len)"
proof (induction sched s len acc arbitrary: r bs s' rule: stdio_redirect_readline_again.induct)
  case (1 sched stdio len acc)
  obtain sched' s where
    w: "wait_event stdio_redirect_has_input sched stdio = Some (sched', s)"
  proof (cases "wait_event stdio_redirect_has_input sched stdio")
    case None
    with "1.prems"(1) show ?thesis
      by (subst (asm) stdio_redirect_readline_again.simps) simp
  next
    case (Some p)
    then show ?thesis using that by (cases p) auto
  qed
  show ?case
  proof (cases "done_stdio s")
    case True
    have "stdio_redirect_readline_again sched stdio len acc =
        Some (if length acc \<noteq> 0 then int (length acc) else - 1, acc, s)"
      by (subst stdio_redirect_readline_again.simps) (simp add: w True)
    with "1.prems"(1) have "bs = acc" "s' = s"
      "r = (if length acc \<noteq> 0 then int (length acc) else - 1)"
      by auto
    with True show ?thesis by auto
  next
    case False
    define b0 where "b0 = min len (nr (input_buf s))"
    define n where "n = memchr (data (input_buf s)) (CHR 0x0A) b0"
    define b where "b = (case n of None \<Rightarrow> b0 | Some i \<Rightarrow> min b0 (i + 1))"
    define acc' where "acc' = acc @ take b (data (input_buf s))"
    define s2 where "s2 = wake_up Input_wait (s\<lparr>input_buf := darray_remove_items (input_buf s) b\<rparr>)"
    have nd2: "\<not> done_stdio s2" using False by (simp add: s2_def wake_up_def)
    have unf: "stdio_redirect_readline_again sched stdio len acc =
        (if n = None \<and> len - b \<noteq> 0
         then stdio_redirect_readline_again sched' s2 (len - b) acc'
         else Some (if length acc' \<noteq> 0 then int (length acc') else 0, acc', s2))"
      unfolding b0_def n_def b_def acc'_def s2_def
      by (subst stdio_redirect_readline_again.simps) (simp add: w False Let_def)
    show ?thesis
    proof (cases "n = None \<and> len - b \<noteq> 0")
      case True
      then have bb0: "b = b0" by (simp add: b_def)
      have nl: "CHR 0x0A \<notin> set (take b (data (input_buf s)))"
        using True memchr_None [of "data (input_buf s)" "CHR 0x0A" b0] bb0 by (simp add: n_def)
      have hi: "stdio_redirect_has_input s" using w wait_event_cond by metis
      with False have "nr (input_buf s) \<noteq> 0" by (simp add: stdio_redirect_has_input_def)
      have lb: "length (take b (data (input_buf s))) = b" "b \<le> len"
        using bb0 by (auto simp: b0_def nr_def)
      from True unf "1.prems"(1)
      have rec: "stdio_redirect_readline_again sched' s2 (len - b) acc' = Some (r, bs, s')"
        by simp
      have "CHR 0x0A \<notin> set acc'" using nl "1.prems"(2) by (simp add: acc'_def)
      from "1.IH" [OF w refl False b0_def n_def b_def acc'_def s2_def True rec this]
      obtain cs where cs: "bs = acc' @ cs" "length cs \<le> len - b"
        "CHR 0x0A \<notin> set (butlast cs)"
        "r = (if bs \<noteq> [] then int (length bs) else if done_stdio s' then - 1 else 0)"
        "done_stdio s' \<or> (cs \<noteq> [] \<and> last cs = CHR 0x0A) \<or> length cs = len - b"
        by blast
      let ?cs = "take b (data (input_buf s)) @ cs"
      have 1: "bs = acc @ ?cs" using cs(1) by (simp add: acc'_def)
      have 2: "length ?cs \<le> len" using cs(2) lb by simp
      have 3: "CHR 0x0A \<notin> set (butlast ?cs)"
        using nl cs(3) by (auto simp: butlast_append dest: in_set_butlastD)
      have 4: "done_stdio s' \<or> (?cs \<noteq> [] \<and> last ?cs = CHR 0x0A) \<or> length ?cs = len"
        using cs(5) lb by auto
      from 1 2 3 4 cs(4) show ?thesis by blast
    next
      case fin: False
      with unf "1.prems"(1) have res: "bs = acc'" "s' = s2"
        "r = (if length acc' \<noteq> 0 then int (length acc') else 0)" by auto
      from fin have nd: "n \<noteq> None \<or> len - b = 0" by auto
      have fc: "length (take b (data (input_buf s))) \<le> len \<and>
         CHR 0x0A \<notin> set (butlast (take b (data (input_buf s)))) \<and>
         ((take b (data (input_buf s)) \<noteq> [] \<and> last (take b (data (input_buf s))) = CHR 0x0A) \<or>
          length (take b (data (input_buf s))) = len)"
        by (rule readline_final_chunk [OF nd]) (simp_all add: n_def b0_def b_def nr_def)
      have "bs = acc @ take b (data (input_buf s))" using res by (simp add: acc'_def)
      moreover have "r = (if bs \<noteq> [] then int (length bs) else if done_stdio s' then - 1 else 0)"
        using res nd2 by simp
      ultimately show ?thesis using fc by blast
    qed
  qed
qed

lemma readline_newline_now:
  assumes "\<not> done_stdio s" "memchr (data (input_buf s)) (CHR 0x0A) (min len (nr (input_buf s))) = Some i"
  shows "stdio_redirect_readline sched s len =
        Some (int (i + 1), take (i + 1) (data (input_buf s)),
              s\<lparr>input_buf := (input_buf s)\<lparr>data := drop (i + 1) (data (input_buf s))\<rparr>,
                woken := woken s @ [Input_wait]\<rparr>)"
proof -
  from memchr_Some [OF assms(2)]
  have i: "i < min len (nr (input_buf s))" "i < length (data (input_buf s))" by auto
  then have hi: "stdio_redirect_has_input s"
    by (auto simp: stdio_redirect_has_input_def nr_def)
  have m: "min (min len (nr (input_buf s))) (Suc i) = Suc i" using i by auto
  have f: "data (input_buf s) \<noteq> []" "0 < len" "0 < nr (input_buf s)"
    "min (length (data (input_buf s))) (Suc i) = Suc i"
    using i by auto
  show ?thesis
    unfolding stdio_redirect_readline_def
    by (subst stdio_redirect_readline_again.simps)
       (simp add: wait_event_now [of stdio_redirect_has_input s, OF hi] assms Let_def m f
          wake_up_def darray_remove_items_def)
qed

lemma readline_again_none:
  "wait_event stdio_redirect_has_input sched s = None \<Longrightarrow>
   stdio_redirect_readline_again sched s len acc = None"
  by (subst stdio_redirect_readline_again.simps) simp

lemma readline_again_done:
  "wait_event stdio_redirect_has_input sched s = Some (sched1, s1) \<Longrightarrow> done_stdio s1 \<Longrightarrow>
   stdio_redirect_readline_again sched s len acc =
     Some (if acc = [] then - 1 else int (length acc), acc, s1)"
  by (subst stdio_redirect_readline_again.simps) simp

lemma readline_again_newline:
  assumes w: "wait_event stdio_redirect_has_input sched s = Some (sched1, s1)"
    and nd: "\<not> done_stdio s1"
    and m: "memchr (data (input_buf s1)) (CHR 0x0A) (min len (nr (input_buf s1))) = Some i"
  shows "stdio_redirect_readline_again sched s len acc =
     Some (int (length acc + i + 1), acc @ take (i + 1) (data (input_buf s1)),
           s1\<lparr>input_buf := (input_buf s1)\<lparr>data := drop (i + 1) (data (input_buf s1))\<rparr>,
              woken := woken s1 @ [Input_wait]\<rparr>)"
proof -
  from memchr_Some [OF m]
  have i: "i < min len (nr (input_buf s1))" "i < length (data (input_buf s1))" by auto
  have f: "min (min len (nr (input_buf s1))) (Suc i) = Suc i"
    "min (length (data (input_buf s1))) (Suc i) = Suc i"
    using i by auto
  show ?thesis
    by (subst stdio_redirect_readline_again.simps)
       (simp add: w nd m Let_def f wake_up_def darray_remove_items_def)
qed

lemma readline_again_full:
  assumes w: "wait_event stdio_redirect_has_input sched s = Some (sched1, s1)"
    and nd: "\<not> done_stdio s1"
    and m: "memchr (data (input_buf s1)) (CHR 0x0A) (min len (nr (input_buf s1))) = None"
    and l: "len \<le> nr (input_buf s1)"
  shows "stdio_redirect_readline_again sched s len acc =
     Some (int (length acc + len), acc @ take len (data (input_buf s1)),
           s1\<lparr>input_buf := (input_buf s1)\<lparr>data := drop len (data (input_buf s1))\<rparr>,
              woken := woken s1 @ [Input_wait]\<rparr>)"
proof -
  have f: "min len (nr (input_buf s1)) = len" "min (length (data (input_buf s1))) len = len"
    using l by (auto simp: nr_def)
  show ?thesis
    using m
    by (subst stdio_redirect_readline_again.simps)
       (simp add: w nd Let_def f wake_up_def darray_remove_items_def)
qed

lemma readline_again_more:
  assumes w: "wait_event stdio_redirect_has_input sched s = Some (sched1, s1)"
    and nd: "\<not> done_stdio s1"
    and m: "memchr (data (input_buf s1)) (CHR 0x0A) (min len (nr (input_buf s1))) = None"
    and l: "nr (input_buf s1) < len"
  shows "stdio_redirect_readline_again sched s len acc =
     stdio_redirect_readline_again sched1
       (s1\<lparr>input_buf := (input_buf s1)\<lparr>data := []\<rparr>, woken := woken s1 @ [Input_wait]\<rparr>)
       (len - nr (input_buf s1)) (acc @ data (input_buf s1))"
proof -
  have f: "min len (nr (input_buf s1)) = nr (input_buf s1)" using l by simp
  have g: "drop (nr (input_buf s1)) (data (input_buf s1)) = []"
    "take (nr (input_buf s1)) (data (input_buf s1)) = data (input_buf s1)"
    by (simp_all add: nr_def)
  show ?thesis
    using m l
    by (subst stdio_redirect_readline_again.simps)
       (simp add: w nd Let_def f g wake_up_def darray_remove_items_def)
qed

lemma readline_again_conserve:
  "stdio_redirect_readline_again sched s len acc = Some (r, bs, s') \<Longrightarrow>
   \<forall>d. rely (\<lambda>s. \<exists>xs. data (input_buf s) = d @ xs) sched \<Longrightarrow>
   \<exists>xs. bs @ data (input_buf s') = acc @ data (input_buf s) @ xs"
proof (induction sched s len acc arbitrary: r bs s' rule: stdio_redirect_readline_again.induct)
  case (1 sched stdio len acc)
  obtain sched' s where
    w: "wait_event stdio_redirect_has_input sched stdio = Some (sched', s)"
  proof (cases "wait_event stdio_redirect_has_input sched stdio")
    case None
    with "1.prems"(1) show ?thesis
      by (subst (asm) stdio_redirect_readline_again.simps) simp
  next
    case (Some p)
    then show ?thesis using that by (cases p) auto
  qed
  have "rely (\<lambda>s. \<exists>xs. data (input_buf s) = data (input_buf stdio) @ xs) sched"
    using "1.prems"(2) by blast
  from wait_event_rely [OF w _ this]
  obtain xs1 where x1: "data (input_buf s) = data (input_buf stdio) @ xs1" by auto
  have r': "\<forall>d. rely (\<lambda>s. \<exists>xs. data (input_buf s) = d @ xs) sched'"
    using "1.prems"(2) wait_event_sched_subset [OF w] rely_subset by blast
  show ?case
  proof (cases "done_stdio s")
    case True
    from readline_again_done [OF w True] "1.prems"(1) have "bs = acc" "s' = s" by auto
    with x1 show ?thesis by simp
  next
    case False
    define b0 where "b0 = min len (nr (input_buf s))"
    define n where "n = memchr (data (input_buf s)) (CHR 0x0A) b0"
    define b where "b = (case n of None \<Rightarrow> b0 | Some i \<Rightarrow> min b0 (i + 1))"
    define acc' where "acc' = acc @ take b (data (input_buf s))"
    define s2 where "s2 = wake_up Input_wait (s\<lparr>input_buf := darray_remove_items (input_buf s) b\<rparr>)"
    have d2: "data (input_buf s2) = drop b (data (input_buf s))"
      by (simp add: s2_def wake_up_def darray_remove_items_def)
    have unf: "stdio_redirect_readline_again sched stdio len acc =
        (if n = None \<and> len - b \<noteq> 0
         then stdio_redirect_readline_again sched' s2 (len - b) acc'
         else Some (if length acc' \<noteq> 0 then int (length acc') else 0, acc', s2))"
      unfolding b0_def n_def b_def acc'_def s2_def
      by (subst stdio_redirect_readline_again.simps) (simp add: w False Let_def)
    have "acc' @ data (input_buf s2) = acc @ data (input_buf s)"
      unfolding acc'_def d2 by simp
    then have split: "acc' @ data (input_buf s2) = acc @ data (input_buf stdio) @ xs1"
      unfolding x1 .
    show ?thesis
    proof (cases "n = None \<and> len - b \<noteq> 0")
      case True
      from True unf "1.prems"(1)
      have rec: "stdio_redirect_readline_again sched' s2 (len - b) acc' = Some (r, bs, s')"
        by simp
      from "1.IH" [OF w refl False b0_def n_def b_def acc'_def s2_def True rec r']
      obtain xs2 where "bs @ data (input_buf s') = acc' @ data (input_buf s2) @ xs2" by blast
      with split have "bs @ data (input_buf s') = acc @ data (input_buf stdio) @ xs1 @ xs2"
        by (metis append.assoc)
      then show ?thesis by blast
    next
      case False
      with unf "1.prems"(1) have "bs = acc'" "s' = s2" by auto
      with split show ?thesis by simp
    qed
  qed
qed

lemma readline_partial_then_closed:
  assumes nd: "\<not> done_stdio s" and ne: "nr (input_buf s) \<noteq> 0" and l: "nr (input_buf s) < len"
    and m: "memchr (data (input_buf s)) (CHR 0x0A) (nr (input_buf s)) = None"
    and w: "wait_event stdio_redirect_has_input sched
              (s\<lparr>input_buf := (input_buf s)\<lparr>data := []\<rparr>, woken := woken s @ [Input_wait]\<rparr>)
            = Some (sched', s3)"
    and d: "done_stdio s3"
  shows "stdio_redirect_readline sched s len
         = Some (int (nr (input_buf s)), data (input_buf s), s3)"
proof -
  have hi: "stdio_redirect_has_input s" using ne by (simp add: stdio_redirect_has_input_def)
  have w0: "wait_event stdio_redirect_has_input sched s = Some (sched, s)"
    using hi by (rule wait_event_now)
  have m': "memchr (data (input_buf s)) (CHR 0x0A) (min len (nr (input_buf s))) = None"
    using m l by (simp add: min_absorb2)
  have "data (input_buf s) \<noteq> []" using ne by (simp add: nr_def)
  then show ?thesis
    unfolding stdio_redirect_readline_def
    by (simp add: readline_again_more [OF w0 nd m' l] readline_again_done [OF w d] nr_def)
qed

text \<open>
  C2 (as stated, refuted). The claim: when the channel closes with a partial line still
  buffered, \<open>stdio_redirect_readline\<close> returns the buffered bytes once. The code tests
  \<open>stdio->done\<close> before it copies: with \<open>abc\<close> buffered on a closed channel the call
  returns -1, copies nothing and leaves the bytes in the buffer, and so does every
  later call.
\<close>

theorem stdio_redirect_readline_closed_counterexample:
  "stdio_redirect_readline [] (mk_stdio ''abc'' 8 [] 0 True) 10
     = Some (- 1, [], mk_stdio ''abc'' 8 [] 0 True)"
  by (simp add: stdio_redirect_readline_def stdio_redirect_readline_again.simps
      stdio_redirect_has_input_def mk_stdio_def)

text \<open>
  C2 (amended). A \<open>stdio_redirect_readline\<close> on a closed channel returns -1 and changes
  nothing, whatever the input buffer holds. On an open channel whose input holds a
  newline at index \<open>i\<close> among its first \<open>len\<close> bytes, the call returns at once with
  the \<open>i + 1\<close> bytes up to and including the newline; when the input holds at least
  \<open>len\<close> bytes and no newline among the first \<open>len\<close>, it returns at once with the first
  \<open>len\<close> bytes. When the input holds a partial line (fewer than \<open>len\<close> bytes, no
  newline), the call takes all of it and sleeps; if the channel is closed when it wakes,
  it returns the partial line and its length, and leaves what is then in the buffer.
  Whenever the call returns, under any actions of other threads: it has copied at most
  \<open>len\<close> bytes; a newline occurs among them only as the last byte; it returns -1
  exactly when it has copied nothing and the channel is closed, and otherwise the
  number of bytes copied; and it has stopped because the channel is closed, or the
  last byte copied is a newline, or \<open>len\<close> bytes have been copied.

  The loop from the label \<open>again\<close>, with \<open>acc\<close> copied so far, is determined in every
  case by the state in which its wait ends. If the wait never ends, the call does not
  return. If it ends with the channel closed, the call returns \<open>acc\<close> (and -1 if \<open>acc\<close>
  is empty) and takes nothing. If it ends with a newline at index \<open>j\<close> among the first
  \<open>len\<close> bytes, the call returns \<open>acc\<close> and the \<open>j + 1\<close> bytes up to the newline. If
  there is no newline and at least \<open>len\<close> bytes, it returns \<open>acc\<close> and the first \<open>len\<close>
  bytes. Otherwise it takes the whole buffer and goes on with \<open>len\<close> reduced by that
  many. When the other threads only append to the input buffer, the bytes returned
  followed by the bytes left in the buffer are \<open>acc\<close>, the bytes that were in the
  buffer and what was appended: no byte is lost, repeated or reordered.
\<close>

theorem stdio_redirect_readline_result:
  "(done_stdio s \<longrightarrow> stdio_redirect_readline sched s len = Some (- 1, [], s)) \<and>
   (\<not> done_stdio s \<and>
    memchr (data (input_buf s)) (CHR 0x0A) (min len (nr (input_buf s))) = Some i \<longrightarrow>
      stdio_redirect_readline sched s len =
        Some (int (i + 1), take (i + 1) (data (input_buf s)),
              s\<lparr>input_buf := (input_buf s)\<lparr>data := drop (i + 1) (data (input_buf s))\<rparr>,
                woken := woken s @ [Input_wait]\<rparr>)) \<and>
   (\<forall>r bs s'. stdio_redirect_readline sched s len = Some (r, bs, s') \<longrightarrow>
      length bs \<le> len \<and> CHR 0x0A \<notin> set (butlast bs) \<and>
      (r = - 1 \<longleftrightarrow> bs = [] \<and> done_stdio s') \<and>
      (r \<noteq> - 1 \<longrightarrow> r = int (length bs)) \<and>
      (done_stdio s' \<or> (bs \<noteq> [] \<and> last bs = CHR 0x0A) \<or> length bs = len)) \<and>
   (\<not> done_stdio s \<and> nr (input_buf s) \<noteq> 0 \<and> len \<le> nr (input_buf s) \<and>
    memchr (data (input_buf s)) (CHR 0x0A) len = None \<longrightarrow>
      stdio_redirect_readline sched s len =
        Some (int len, take len (data (input_buf s)),
              s\<lparr>input_buf := (input_buf s)\<lparr>data := drop len (data (input_buf s))\<rparr>,
                woken := woken s @ [Input_wait]\<rparr>)) \<and>
   (\<forall>sched1 s1.
      \<not> done_stdio s \<and> nr (input_buf s) \<noteq> 0 \<and> nr (input_buf s) < len \<and>
      memchr (data (input_buf s)) (CHR 0x0A) (nr (input_buf s)) = None \<and>
      wait_event stdio_redirect_has_input sched
        (s\<lparr>input_buf := (input_buf s)\<lparr>data := []\<rparr>, woken := woken s @ [Input_wait]\<rparr>)
        = Some (sched1, s1) \<and>
      done_stdio s1 \<longrightarrow>
      stdio_redirect_readline sched s len
        = Some (int (nr (input_buf s)), data (input_buf s), s1)) \<and>
   stdio_redirect_readline sched s len = stdio_redirect_readline_again sched s len [] \<and>
   (wait_event stdio_redirect_has_input sched s = None \<longrightarrow>
      stdio_redirect_readline_again sched s len acc = None) \<and>
   (\<forall>sched1 s1. wait_event stdio_redirect_has_input sched s = Some (sched1, s1) \<longrightarrow>
      (done_stdio s1 \<longrightarrow>
         stdio_redirect_readline_again sched s len acc =
           Some (if acc = [] then - 1 else int (length acc), acc, s1)) \<and>
      (\<forall>j. \<not> done_stdio s1 \<and>
         memchr (data (input_buf s1)) (CHR 0x0A) (min len (nr (input_buf s1))) = Some j \<longrightarrow>
         stdio_redirect_readline_again sched s len acc =
           Some (int (length acc + j + 1), acc @ take (j + 1) (data (input_buf s1)),
                 s1\<lparr>input_buf := (input_buf s1)\<lparr>data := drop (j + 1) (data (input_buf s1))\<rparr>,
                    woken := woken s1 @ [Input_wait]\<rparr>)) \<and>
      (\<not> done_stdio s1 \<and>
         memchr (data (input_buf s1)) (CHR 0x0A) (min len (nr (input_buf s1))) = None \<and>
         len \<le> nr (input_buf s1) \<longrightarrow>
         stdio_redirect_readline_again sched s len acc =
           Some (int (length acc + len), acc @ take len (data (input_buf s1)),
                 s1\<lparr>input_buf := (input_buf s1)\<lparr>data := drop len (data (input_buf s1))\<rparr>,
                    woken := woken s1 @ [Input_wait]\<rparr>)) \<and>
      (\<not> done_stdio s1 \<and>
         memchr (data (input_buf s1)) (CHR 0x0A) (min len (nr (input_buf s1))) = None \<and>
         nr (input_buf s1) < len \<longrightarrow>
         stdio_redirect_readline_again sched s len acc =
           stdio_redirect_readline_again sched1
             (s1\<lparr>input_buf := (input_buf s1)\<lparr>data := []\<rparr>, woken := woken s1 @ [Input_wait]\<rparr>)
             (len - nr (input_buf s1)) (acc @ data (input_buf s1)))) \<and>
   (\<forall>r bs s'. stdio_redirect_readline_again sched s len acc = Some (r, bs, s') \<and>
      (\<forall>d. rely (\<lambda>s. \<exists>xs. data (input_buf s) = d @ xs) sched) \<longrightarrow>
      (\<exists>xs. bs @ data (input_buf s') = acc @ data (input_buf s) @ xs))"
proof -
  have c1: "done_stdio s \<longrightarrow> stdio_redirect_readline sched s len = Some (- 1, [], s)"
    unfolding stdio_redirect_readline_def
    by (subst stdio_redirect_readline_again.simps)
       (simp add: wait_event_now stdio_redirect_has_input_def)
  have c2: "\<not> done_stdio s \<and>
    memchr (data (input_buf s)) (CHR 0x0A) (min len (nr (input_buf s))) = Some i \<longrightarrow>
      stdio_redirect_readline sched s len =
        Some (int (i + 1), take (i + 1) (data (input_buf s)),
              s\<lparr>input_buf := (input_buf s)\<lparr>data := drop (i + 1) (data (input_buf s))\<rparr>,
                woken := woken s @ [Input_wait]\<rparr>)"
    using readline_newline_now by blast
  have c3: "\<forall>r bs s'. stdio_redirect_readline sched s len = Some (r, bs, s') \<longrightarrow>
      length bs \<le> len \<and> CHR 0x0A \<notin> set (butlast bs) \<and>
      (r = - 1 \<longleftrightarrow> bs = [] \<and> done_stdio s') \<and>
      (r \<noteq> - 1 \<longrightarrow> r = int (length bs)) \<and>
      (done_stdio s' \<or> (bs \<noteq> [] \<and> last bs = CHR 0x0A) \<or> length bs = len)"
  proof (intro allI impI)
    fix r bs s'
    assume "stdio_redirect_readline sched s len = Some (r, bs, s')"
    then have "stdio_redirect_readline_again sched s len [] = Some (r, bs, s')"
      by (simp add: stdio_redirect_readline_def)
    from readline_again_post [OF this]
    have p: "length bs \<le> len" "CHR 0x0A \<notin> set (butlast bs)"
      "r = (if bs \<noteq> [] then int (length bs) else if done_stdio s' then - 1 else 0)"
      "done_stdio s' \<or> (bs \<noteq> [] \<and> last bs = CHR 0x0A) \<or> length bs = len"
      by auto
    from p(3) have "r = - 1 \<longleftrightarrow> bs = [] \<and> done_stdio s'" by auto
    moreover from p(3) have "r \<noteq> - 1 \<longrightarrow> r = int (length bs)" by (auto split: if_splits)
    ultimately show "length bs \<le> len \<and> CHR 0x0A \<notin> set (butlast bs) \<and>
      (r = - 1 \<longleftrightarrow> bs = [] \<and> done_stdio s') \<and>
      (r \<noteq> - 1 \<longrightarrow> r = int (length bs)) \<and>
      (done_stdio s' \<or> (bs \<noteq> [] \<and> last bs = CHR 0x0A) \<or> length bs = len)"
      using p(1,2,4) by blast
  qed
  have c4: "\<not> done_stdio s \<and> nr (input_buf s) \<noteq> 0 \<and> len \<le> nr (input_buf s) \<and>
    memchr (data (input_buf s)) (CHR 0x0A) len = None \<longrightarrow>
      stdio_redirect_readline sched s len =
        Some (int len, take len (data (input_buf s)),
              s\<lparr>input_buf := (input_buf s)\<lparr>data := drop len (data (input_buf s))\<rparr>,
                woken := woken s @ [Input_wait]\<rparr>)"
  proof
    assume a: "\<not> done_stdio s \<and> nr (input_buf s) \<noteq> 0 \<and> len \<le> nr (input_buf s) \<and>
      memchr (data (input_buf s)) (CHR 0x0A) len = None"
    then have w0: "wait_event stdio_redirect_has_input sched s = Some (sched, s)"
      by (simp add: wait_event_now stdio_redirect_has_input_def)
    from a have m: "memchr (data (input_buf s)) (CHR 0x0A) (min len (nr (input_buf s))) = None"
      by (simp add: min_absorb1)
    from a have nd: "\<not> done_stdio s" and l: "len \<le> nr (input_buf s)" by simp_all
    show "stdio_redirect_readline sched s len =
        Some (int len, take len (data (input_buf s)),
              s\<lparr>input_buf := (input_buf s)\<lparr>data := drop len (data (input_buf s))\<rparr>,
                woken := woken s @ [Input_wait]\<rparr>)"
      unfolding stdio_redirect_readline_def
      by (simp add: readline_again_full [OF w0 nd m l])
  qed
  have c5: "\<forall>sched1 s1.
      \<not> done_stdio s \<and> nr (input_buf s) \<noteq> 0 \<and> nr (input_buf s) < len \<and>
      memchr (data (input_buf s)) (CHR 0x0A) (nr (input_buf s)) = None \<and>
      wait_event stdio_redirect_has_input sched
        (s\<lparr>input_buf := (input_buf s)\<lparr>data := []\<rparr>, woken := woken s @ [Input_wait]\<rparr>)
        = Some (sched1, s1) \<and>
      done_stdio s1 \<longrightarrow>
      stdio_redirect_readline sched s len
        = Some (int (nr (input_buf s)), data (input_buf s), s1)"
    using readline_partial_then_closed by blast
  have c6: "stdio_redirect_readline sched s len = stdio_redirect_readline_again sched s len []"
    by (simp add: stdio_redirect_readline_def)
  have c7: "wait_event stdio_redirect_has_input sched s = None \<longrightarrow>
      stdio_redirect_readline_again sched s len acc = None"
    using readline_again_none by blast
  have c8: "\<forall>sched1 s1. wait_event stdio_redirect_has_input sched s = Some (sched1, s1) \<longrightarrow>
      (done_stdio s1 \<longrightarrow>
         stdio_redirect_readline_again sched s len acc =
           Some (if acc = [] then - 1 else int (length acc), acc, s1)) \<and>
      (\<forall>j. \<not> done_stdio s1 \<and>
         memchr (data (input_buf s1)) (CHR 0x0A) (min len (nr (input_buf s1))) = Some j \<longrightarrow>
         stdio_redirect_readline_again sched s len acc =
           Some (int (length acc + j + 1), acc @ take (j + 1) (data (input_buf s1)),
                 s1\<lparr>input_buf := (input_buf s1)\<lparr>data := drop (j + 1) (data (input_buf s1))\<rparr>,
                    woken := woken s1 @ [Input_wait]\<rparr>)) \<and>
      (\<not> done_stdio s1 \<and>
         memchr (data (input_buf s1)) (CHR 0x0A) (min len (nr (input_buf s1))) = None \<and>
         len \<le> nr (input_buf s1) \<longrightarrow>
         stdio_redirect_readline_again sched s len acc =
           Some (int (length acc + len), acc @ take len (data (input_buf s1)),
                 s1\<lparr>input_buf := (input_buf s1)\<lparr>data := drop len (data (input_buf s1))\<rparr>,
                    woken := woken s1 @ [Input_wait]\<rparr>)) \<and>
      (\<not> done_stdio s1 \<and>
         memchr (data (input_buf s1)) (CHR 0x0A) (min len (nr (input_buf s1))) = None \<and>
         nr (input_buf s1) < len \<longrightarrow>
         stdio_redirect_readline_again sched s len acc =
           stdio_redirect_readline_again sched1
             (s1\<lparr>input_buf := (input_buf s1)\<lparr>data := []\<rparr>, woken := woken s1 @ [Input_wait]\<rparr>)
             (len - nr (input_buf s1)) (acc @ data (input_buf s1)))"
  proof (intro allI impI conjI)
    fix sched1 s1
    assume w: "wait_event stdio_redirect_has_input sched s = Some (sched1, s1)"
    show "stdio_redirect_readline_again sched s len acc =
           Some (if acc = [] then - 1 else int (length acc), acc, s1)" if "done_stdio s1"
      using w that by (rule readline_again_done)
    show "stdio_redirect_readline_again sched s len acc =
           Some (int (length acc + j + 1), acc @ take (j + 1) (data (input_buf s1)),
                 s1\<lparr>input_buf := (input_buf s1)\<lparr>data := drop (j + 1) (data (input_buf s1))\<rparr>,
                    woken := woken s1 @ [Input_wait]\<rparr>)"
      if "\<not> done_stdio s1 \<and>
         memchr (data (input_buf s1)) (CHR 0x0A) (min len (nr (input_buf s1))) = Some j" for j
      using readline_again_newline [OF w] that by blast
    show "stdio_redirect_readline_again sched s len acc =
           Some (int (length acc + len), acc @ take len (data (input_buf s1)),
                 s1\<lparr>input_buf := (input_buf s1)\<lparr>data := drop len (data (input_buf s1))\<rparr>,
                    woken := woken s1 @ [Input_wait]\<rparr>)"
      if "\<not> done_stdio s1 \<and>
         memchr (data (input_buf s1)) (CHR 0x0A) (min len (nr (input_buf s1))) = None \<and>
         len \<le> nr (input_buf s1)"
      using readline_again_full [OF w] that by blast
    show "stdio_redirect_readline_again sched s len acc =
           stdio_redirect_readline_again sched1
             (s1\<lparr>input_buf := (input_buf s1)\<lparr>data := []\<rparr>, woken := woken s1 @ [Input_wait]\<rparr>)
             (len - nr (input_buf s1)) (acc @ data (input_buf s1))"
      if "\<not> done_stdio s1 \<and>
         memchr (data (input_buf s1)) (CHR 0x0A) (min len (nr (input_buf s1))) = None \<and>
         nr (input_buf s1) < len"
      using readline_again_more [OF w] that by blast
  qed
  have c9: "\<forall>r bs s'. stdio_redirect_readline_again sched s len acc = Some (r, bs, s') \<and>
      (\<forall>d. rely (\<lambda>s. \<exists>xs. data (input_buf s) = d @ xs) sched) \<longrightarrow>
      (\<exists>xs. bs @ data (input_buf s') = acc @ data (input_buf s) @ xs)"
    using readline_again_conserve by blast
  from c1 c2 c3 c4 c5 c6 c7 c8 c9 show ?thesis by (intro conjI)
qed

theorem stdio_redirect_readline_result_witness:
  "done_stdio (mk_stdio ''abc'' 8 [] 0 True) \<and>
   stdio_redirect_readline [] (mk_stdio ''abc'' 8 [] 0 True) 10
     = Some (- 1, [], mk_stdio ''abc'' 8 [] 0 True) \<and>
   \<not> done_stdio (mk_stdio (''ab'' @ [CHR 0x0A] @ ''cd'') 8 [] 0 False) \<and>
   memchr (''ab'' @ [CHR 0x0A] @ ''cd'') (CHR 0x0A) (min 10 5) = Some 2 \<and>
   stdio_redirect_readline [] (mk_stdio (''ab'' @ [CHR 0x0A] @ ''cd'') 8 [] 0 False) 10
     = Some (3, ''ab'' @ [CHR 0x0A], (mk_stdio ''cd'' 8 [] 0 False)\<lparr>woken := [Input_wait]\<rparr>) \<and>
   length (''ab'' @ [CHR 0x0A]) \<le> 10 \<and> last (''ab'' @ [CHR 0x0A]) = CHR 0x0A \<and>
   memchr ''abcdef'' (CHR 0x0A) 4 = None \<and>
   stdio_redirect_readline [] (mk_stdio ''abcdef'' 8 [] 0 False) 4
     = Some (4, ''abcd'', (mk_stdio ''ef'' 8 [] 0 False)\<lparr>woken := [Input_wait]\<rparr>) \<and>
   memchr ''abc'' (CHR 0x0A) 3 = None \<and>
   wait_event stdio_redirect_has_input [Act (\<lambda>s. s\<lparr>done_stdio := True\<rparr>)]
       ((mk_stdio [] 8 [] 0 False)\<lparr>woken := [Input_wait]\<rparr>)
     = Some ([], (mk_stdio [] 8 [] 0 True)\<lparr>woken := [Input_wait]\<rparr>) \<and>
   stdio_redirect_readline [Act (\<lambda>s. s\<lparr>done_stdio := True\<rparr>)] (mk_stdio ''abc'' 8 [] 0 False) 10
     = Some (3, ''abc'', (mk_stdio [] 8 [] 0 True)\<lparr>woken := [Input_wait]\<rparr>) \<and>
   wait_event stdio_redirect_has_input [] (mk_stdio [] 8 [] 0 False) = None \<and>
   stdio_redirect_readline [] (mk_stdio [] 8 [] 0 False) 10 = None \<and>
   stdio_redirect_readline [] (mk_stdio ''abc'' 8 [] 0 False) 10 = None \<and>
   stdio_redirect_readline
       [Act (\<lambda>s. s\<lparr>input_buf := (input_buf s)\<lparr>data := data (input_buf s) @ [CHR ''c'', CHR 0x0A, CHR ''d'']\<rparr>\<rparr>)]
       (mk_stdio ''ab'' 8 [] 0 False) 10
     = Some (4, ''abc'' @ [CHR 0x0A], (mk_stdio ''d'' 8 [] 0 False)\<lparr>woken := [Input_wait, Input_wait]\<rparr>)"
proof -
  note ev = stdio_redirect_has_input_def mk_stdio_def memchr_def nr_def
  note t = stdio_redirect_readline_result
  have 1: "done_stdio (mk_stdio ''abc'' 8 [] 0 True)" by (simp add: ev)
  have 2: "\<not> done_stdio (mk_stdio (''ab'' @ [CHR 0x0A] @ ''cd'') 8 [] 0 False)"
    by (simp add: ev)
  have 3: "memchr (''ab'' @ [CHR 0x0A] @ ''cd'') (CHR 0x0A) (min 10 5) = Some 2"
    by (simp add: ev)
  have 4: "memchr ''abcdef'' (CHR 0x0A) 4 = None" by (simp add: ev)
  have 5: "memchr ''abc'' (CHR 0x0A) 3 = None" by (simp add: ev)
  have 6: "wait_event stdio_redirect_has_input [Act (\<lambda>s. s\<lparr>done_stdio := True\<rparr>)]
       ((mk_stdio [] 8 [] 0 False)\<lparr>woken := [Input_wait]\<rparr>)
     = Some ([], (mk_stdio [] 8 [] 0 True)\<lparr>woken := [Input_wait]\<rparr>)"
    by (simp add: ev)
  have 7: "wait_event stdio_redirect_has_input [] (mk_stdio [] 8 [] 0 False) = None"
    by (simp add: ev)
  have a: "stdio_redirect_readline [] (mk_stdio ''abc'' 8 [] 0 True) 10
     = Some (- 1, [], mk_stdio ''abc'' 8 [] 0 True)"
    using t [where s = "mk_stdio ''abc'' 8 [] 0 True" and sched = "[]" and len = 10] 1 by blast
  have b: "stdio_redirect_readline [] (mk_stdio (''ab'' @ [CHR 0x0A] @ ''cd'') 8 [] 0 False) 10
     = Some (3, ''ab'' @ [CHR 0x0A], (mk_stdio ''cd'' 8 [] 0 False)\<lparr>woken := [Input_wait]\<rparr>)"
    using t [where s = "mk_stdio (''ab'' @ [CHR 0x0A] @ ''cd'') 8 [] 0 False" and sched = "[]"
        and len = 10 and i = 2, THEN conjunct2, THEN conjunct1] 2 3
    by (simp add: mk_stdio_def nr_def memchr_def)
  have c: "stdio_redirect_readline [] (mk_stdio ''abcdef'' 8 [] 0 False) 4
     = Some (4, ''abcd'', (mk_stdio ''ef'' 8 [] 0 False)\<lparr>woken := [Input_wait]\<rparr>)"
    using t [where s = "mk_stdio ''abcdef'' 8 [] 0 False" and sched = "[]" and len = 4,
        THEN conjunct2, THEN conjunct2, THEN conjunct2, THEN conjunct1] 4
    by (simp add: mk_stdio_def nr_def memchr_def)
  have d: "stdio_redirect_readline [Act (\<lambda>s. s\<lparr>done_stdio := True\<rparr>)]
       (mk_stdio ''abc'' 8 [] 0 False) 10
     = Some (3, ''abc'', (mk_stdio [] 8 [] 0 True)\<lparr>woken := [Input_wait]\<rparr>)"
    using t [where s = "mk_stdio ''abc'' 8 [] 0 False"
        and sched = "[Act (\<lambda>s. s\<lparr>done_stdio := True\<rparr>)]" and len = 10,
        THEN conjunct2, THEN conjunct2, THEN conjunct2, THEN conjunct2, THEN conjunct1,
        THEN spec, THEN spec, of "[]" "(mk_stdio [] 8 [] 0 True)\<lparr>woken := [Input_wait]\<rparr>"]
      5 6
    by (simp add: mk_stdio_def nr_def memchr_def)
  have e: "stdio_redirect_readline [] (mk_stdio [] 8 [] 0 False) 10 = None"
    using t [where s = "mk_stdio [] 8 [] 0 False" and sched = "[]" and len = 10 and acc = "[]"] 7
    by simp
  have f: "stdio_redirect_readline [] (mk_stdio ''abc'' 8 [] 0 False) 10 = None"
    by (simp add: stdio_redirect_readline_def stdio_redirect_readline_again.simps ev
        wake_up_def darray_remove_items_def)
  have g: "stdio_redirect_readline
       [Act (\<lambda>s. s\<lparr>input_buf := (input_buf s)\<lparr>data := data (input_buf s) @ [CHR ''c'', CHR 0x0A, CHR ''d'']\<rparr>\<rparr>)]
       (mk_stdio ''ab'' 8 [] 0 False) 10
     = Some (4, ''abc'' @ [CHR 0x0A], (mk_stdio ''d'' 8 [] 0 False)\<lparr>woken := [Input_wait, Input_wait]\<rparr>)"
    by (simp add: stdio_redirect_readline_def stdio_redirect_readline_again.simps ev
        wake_up_def darray_remove_items_def)
  from 1 2 3 4 5 6 7 a b c d e f g show ?thesis by simp
qed

subsection \<open>The allocation policy of the kernel\<close>

lemma pow2_from_ge: "n \<le> p * 2 ^ k \<Longrightarrow> n \<le> pow2_from k p n"
proof (induction k arbitrary: p)
  case 0
  then show ?case by simp
next
  case (Suc k)
  then show ?case by (simp add: mult.assoc)
qed

lemma roundup_pow_of_two_ge: "n \<le> roundup_pow_of_two n"
proof -
  have "n \<le> 1 * 2 ^ n" using less_exp [of n] by simp
  then show ?thesis unfolding roundup_pow_of_two_def by (rule pow2_from_ge)
qed

lemma pow2_from_le: "j \<le> m \<Longrightarrow> n \<le> 2 ^ m \<Longrightarrow> pow2_from k (2 ^ j) n \<le> 2 ^ m"
proof (induction k arbitrary: j)
  case 0
  then show ?case by simp
next
  case (Suc k)
  show ?case
  proof (cases "n \<le> 2 ^ j")
    case True
    then show ?thesis using Suc.prems by simp
  next
    case False
    from False have "(2::nat) ^ j < n" by simp
    from this Suc.prems(2) have "(2::nat) ^ j < 2 ^ m" by (rule less_le_trans)
    then have "j < m" by simp
    then have "Suc j \<le> m" by simp
    from Suc.IH [OF this Suc.prems(2)] False show ?thesis by simp
  qed
qed

lemma roundup_pow_of_two_le: "n \<le> 2 ^ m \<Longrightarrow> roundup_pow_of_two n \<le> 2 ^ m"
  using pow2_from_le [of 0 m n n] by (simp add: roundup_pow_of_two_def)

subsection \<open>The scenario at capacity 8\<close>

text \<open>
  C3. Capacity 8, an empty input buffer, an open channel, every byte of the caller's
  memory accessible and the allocation successful. For every allocation policy that
  gives at least the size asked for, and at most 8 when at most 8 is asked for: a
  non-blocking \<open>thread_with_stdio_write\<close> of \<open>ABCDEFGHIJ\<close> returns 8 and leaves
  \<open>ABCDEFGH\<close> in the buffer; a \<open>stdio_redirect_read\<close> of 4 bytes then returns \<open>ABCD\<close>
  and leaves \<open>EFGH\<close>; a non-blocking write of \<open>IJ\<close> then returns 2 and leaves
  \<open>EFGHIJ\<close>, 6 bytes.
\<close>

theorem capacity_8_scenario:
  assumes "\<forall>n. n \<le> grow n" and "\<forall>n\<le>8. grow n \<le> 8"
  shows "thread_with_stdio_write 8 grow [ok_access, ok_access] [] True
           (mk_thread False (mk_stdio [] 0 [] 0 False)) ''ABCDEFGHIJ''
         = Some (8, mk_thread False ((mk_stdio ''ABCDEFGH'' 8 [] 0 False)\<lparr>woken := [Input_wait]\<rparr>)) \<and>
         stdio_redirect_read [] ((mk_stdio ''ABCDEFGH'' 8 [] 0 False)\<lparr>woken := [Input_wait]\<rparr>) 4
         = Some (4, ''ABCD'', (mk_stdio ''EFGH'' 8 [] 0 False)\<lparr>woken := [Input_wait, Input_wait]\<rparr>) \<and>
         thread_with_stdio_write 8 grow [ok_access] [] True
           (mk_thread False ((mk_stdio ''EFGH'' 8 [] 0 False)\<lparr>woken := [Input_wait, Input_wait]\<rparr>)) ''IJ''
         = Some (2, mk_thread False
              ((mk_stdio ''EFGHIJ'' 8 [] 0 False)\<lparr>woken := [Input_wait, Input_wait, Input_wait]\<rparr>)) \<and>
         nr (input_buf (mk_stdio ''EFGHIJ'' 8 [] 0 False)) = 6"
proof -
  have "grow 8 = 8" using assms by (simp add: le_antisym)
  then have g: "grow (Suc (Suc (Suc (Suc (Suc (Suc (Suc (Suc 0)))))))) = 8"
    by (simp add: eval_nat_numeral)
  show ?thesis
    by (simp add: thread_with_stdio_write_def thread_with_stdio_write_step_def
        darray_make_room_gfp_def darray_room_def nr_def mk_thread_def mk_stdio_def
        ok_access_def fault_in_bytes_def wake_up_def g Let_def
        stdio_redirect_read_def stdio_redirect_has_input_def darray_remove_items_def)
qed

theorem capacity_8_scenario_witness:
  "thread_with_stdio_write 8 roundup_pow_of_two [ok_access, ok_access] [] True
     (mk_thread False (mk_stdio [] 0 [] 0 False)) ''ABCDEFGHIJ''
   = Some (8, mk_thread False ((mk_stdio ''ABCDEFGH'' 8 [] 0 False)\<lparr>woken := [Input_wait]\<rparr>)) \<and>
   stdio_redirect_read [] ((mk_stdio ''ABCDEFGH'' 8 [] 0 False)\<lparr>woken := [Input_wait]\<rparr>) 4
   = Some (4, ''ABCD'', (mk_stdio ''EFGH'' 8 [] 0 False)\<lparr>woken := [Input_wait, Input_wait]\<rparr>) \<and>
   thread_with_stdio_write 8 roundup_pow_of_two [ok_access] [] True
     (mk_thread False ((mk_stdio ''EFGH'' 8 [] 0 False)\<lparr>woken := [Input_wait, Input_wait]\<rparr>)) ''IJ''
   = Some (2, mk_thread False
        ((mk_stdio ''EFGHIJ'' 8 [] 0 False)\<lparr>woken := [Input_wait, Input_wait, Input_wait]\<rparr>)) \<and>
   nr (input_buf (mk_stdio ''EFGHIJ'' 8 [] 0 False)) = 6"
proof -
  have 1: "\<forall>n. n \<le> roundup_pow_of_two n" by (simp add: roundup_pow_of_two_ge)
  have 2: "\<forall>n\<le>8. roundup_pow_of_two n \<le> 8"
    using roundup_pow_of_two_le [of _ 3] by simp
  from capacity_8_scenario [OF 1 2] show ?thesis .
qed

subsection \<open>The input buffer stays within the capacity\<close>

lemma write_step_within:
  assumes g: "\<forall>n\<le>bufsize. grow n \<le> bufsize" "\<forall>n. n \<le> grow n"
    and w: "darray_within bufsize buf"
    and st: "thread_with_stdio_write_step bufsize grow u buf ubuf b0 = (b, cp, buf')"
  shows "darray_within bufsize buf'"
proof -
  define buf1 where "buf1 = (if nr buf < bufsize
      then snd (darray_make_room_gfp grow (alloc_ok u) buf (min b0 (bufsize - nr buf))) else buf)"
  have d1: "data buf1 = data buf"
    by (simp add: buf1_def darray_make_room_gfp_def)
  have "nr buf + min b0 (bufsize - nr buf) \<le> bufsize" if "nr buf < bufsize"
    using that by simp
  moreover have "nr buf \<le> grow (nr buf + k)" for k
    using g(2) le_trans [OF le_add1, of "nr buf" k "grow (nr buf + k)"] by blast
  ultimately have s1: "size_d buf1 \<le> bufsize" "nr buf \<le> size_d buf1"
    using g(1) w
    by (auto simp: buf1_def darray_make_room_gfp_def darray_within_def)
  have n1: "nr buf1 = nr buf" using d1 by (simp add: nr_def)
  from st have "buf' = buf1 \<or>
      buf' = buf1\<lparr>data := data buf1 @ take (min (length ubuf) (darray_room buf1)) ubuf\<rparr>"
    by (auto simp: thread_with_stdio_write_step_def Let_def buf1_def split: if_splits)
  then show ?thesis
    using s1 n1 by (auto simp: darray_within_def nr_def darray_room_def)
qed

lemma write_loop_inv:
  assumes g: "\<forall>n\<le>bufsize. grow n \<le> bufsize" "\<forall>n. n \<le> grow n"
  shows "thread_with_stdio_write_loop bufsize grow us sched nb t ubuf copied = Some (c, r, t') \<Longrightarrow>
   input_inv bufsize t \<Longrightarrow> rely (input_inv bufsize) sched \<Longrightarrow> input_inv bufsize t'"
proof (induction us arbitrary: sched t ubuf copied)
  case Nil
  then show ?case by (auto split: if_splits)
next
  case (Cons u us)
  define b0 where "b0 = length ubuf - fault_in_bytes u (length ubuf)"
  show ?case
  proof (cases "length ubuf = 0 \<or> done_thr (thr t) \<or> b0 = 0")
    case True
    with Cons.prems(1) have "t' = t"
      by (auto simp: b0_def Let_def split: if_splits)
    with Cons.prems(2) show ?thesis by simp
  next
    case False
    obtain b cp buf where
      st: "thread_with_stdio_write_step bufsize grow u (input_buf (stdio t)) ubuf b0 = (b, cp, buf)"
      by (cases "thread_with_stdio_write_step bufsize grow u (input_buf (stdio t)) ubuf b0") auto
    define t1 where "t1 = t\<lparr>stdio := (stdio t)\<lparr>input_buf := buf\<rparr>\<rparr>"
    define ubuf' where "ubuf' = (if cp then drop b ubuf else ubuf)"
    define copied' where "copied' = (if cp then copied + b else copied)"
    have unf: "thread_with_stdio_write_loop bufsize grow (u # us) sched nb t ubuf copied =
      (if b \<noteq> 0
       then thread_with_stdio_write_loop bufsize grow us sched nb
              (t1\<lparr>stdio := wake_up Input_wait (stdio t1)\<rparr>) ubuf' copied'
       else if nb then Some (copied', - EAGAIN, t1)
       else (case wait_event_interruptible
                    (\<lambda>t. stdio_redirect_has_input_space bufsize (stdio t)) sched t1 of
               None \<Rightarrow> None
             | Some (r, sched', t2) \<Rightarrow>
                 if r \<noteq> 0 then Some (copied', r, t2)
                 else thread_with_stdio_write_loop bufsize grow us sched' nb t2 ubuf' copied'))"
      using False st unfolding t1_def ubuf'_def copied'_def b0_def
      by (simp add: Let_def)
    have "darray_within bufsize buf"
      using write_step_within [OF g _ st] Cons.prems(2) by (simp add: input_inv_def)
    then have i1: "input_inv bufsize t1" by (simp add: input_inv_def t1_def)
    then have i1w: "input_inv bufsize (t1\<lparr>stdio := wake_up Input_wait (stdio t1)\<rparr>)"
      by (simp add: input_inv_def wake_up_def)
    show ?thesis
    proof (cases "b \<noteq> 0")
      case True
      with unf Cons.prems(1)
      have "thread_with_stdio_write_loop bufsize grow us sched nb
              (t1\<lparr>stdio := wake_up Input_wait (stdio t1)\<rparr>) ubuf' copied' = Some (c, r, t')"
        by simp
      from Cons.IH [OF this i1w Cons.prems(3)] show ?thesis .
    next
      case b: False
      show ?thesis
      proof (cases nb)
        case True
        with b unf Cons.prems(1) have "t' = t1" by simp
        with i1 show ?thesis by simp
      next
        case False
        with b unf Cons.prems(1) obtain r2 sched' t2 where
          w: "wait_event_interruptible
                (\<lambda>t. stdio_redirect_has_input_space bufsize (stdio t)) sched t1
              = Some (r2, sched', t2)"
          and res: "(if r2 \<noteq> 0 then Some (copied', r2, t2)
                 else thread_with_stdio_write_loop bufsize grow us sched' nb t2 ubuf' copied')
                = Some (c, r, t')"
          by (auto split: option.splits)
        from wait_event_interruptible_rely [OF w i1 Cons.prems(3)]
        have i2: "input_inv bufsize t2" "rely (input_inv bufsize) sched'" by auto
        show ?thesis
        proof (cases "r2 \<noteq> 0")
          case True
          with res have "t' = t2" by simp
          with i2 show ?thesis by simp
        next
          case False
          with res have "thread_with_stdio_write_loop bufsize grow us sched' nb t2 ubuf' copied'
                = Some (c, r, t')" by simp
          from Cons.IH [OF this i2] show ?thesis .
        qed
      qed
    qed
  qed
qed

text \<open>
  C4. Let the allocation policy give at least the size asked for, and at most
  \<open>bufsize\<close> when at most \<open>bufsize\<close> is asked for (the kernel's policy does at
  \<open>bufsize = 4096\<close>). If the input buffer is within the capacity before a
  \<open>thread_with_stdio_write\<close>, and the other threads keep it so while the call sleeps,
  then after the call the input buffer holds at most \<open>bufsize\<close> bytes and is within
  the capacity again.
\<close>

theorem thread_with_stdio_write_within_capacity:
  assumes "\<forall>n\<le>bufsize. grow n \<le> bufsize" and "\<forall>n. n \<le> grow n"
    and "input_inv bufsize t" and "rely (input_inv bufsize) sched"
    and "thread_with_stdio_write bufsize grow us sched nb t ubuf = Some (r, t')"
  shows "nr (input_buf (stdio t')) \<le> bufsize \<and> input_inv bufsize t'"
proof -
  from assms(5) obtain c r' where
    "thread_with_stdio_write_loop bufsize grow us sched nb t ubuf 0 = Some (c, r', t')"
    by (auto simp: thread_with_stdio_write_def split: option.splits)
  from write_loop_inv [OF assms(1,2) this assms(3,4)]
  show ?thesis by (auto simp: input_inv_def darray_within_def)
qed

theorem thread_with_stdio_write_within_capacity_witness:
  "input_inv STDIO_REDIRECT_BUFSIZE (mk_thread False (mk_stdio ''ABCDEF'' 8 [] 0 False)) \<and>
   rely (input_inv STDIO_REDIRECT_BUFSIZE) [] \<and>
   thread_with_stdio_write STDIO_REDIRECT_BUFSIZE roundup_pow_of_two [ok_access] [] True
     (mk_thread False (mk_stdio ''ABCDEF'' 8 [] 0 False)) ''xyz''
     = Some (3, mk_thread False ((mk_stdio ''ABCDEFxyz'' 16 [] 0 False)\<lparr>woken := [Input_wait]\<rparr>)) \<and>
   nr (input_buf (mk_stdio ''ABCDEFxyz'' 16 [] 0 False)) \<le> STDIO_REDIRECT_BUFSIZE"
proof -
  have 1: "\<forall>n\<le>STDIO_REDIRECT_BUFSIZE. roundup_pow_of_two n \<le> STDIO_REDIRECT_BUFSIZE"
    using roundup_pow_of_two_le [of _ 12] by (simp add: STDIO_REDIRECT_BUFSIZE_def)
  have 2: "\<forall>n. n \<le> roundup_pow_of_two n" by (simp add: roundup_pow_of_two_ge)
  have 3: "input_inv STDIO_REDIRECT_BUFSIZE (mk_thread False (mk_stdio ''ABCDEF'' 8 [] 0 False))"
    by (simp add: input_inv_def darray_within_def mk_thread_def mk_stdio_def nr_def
        STDIO_REDIRECT_BUFSIZE_def)
  have 4: "rely (input_inv STDIO_REDIRECT_BUFSIZE) []" by (simp add: rely_def)
  have r9: "roundup_pow_of_two (Suc (Suc (Suc (Suc (Suc (Suc (Suc (Suc (Suc 0))))))))) = 16"
    by code_simp
  have 5: "thread_with_stdio_write STDIO_REDIRECT_BUFSIZE roundup_pow_of_two [ok_access] [] True
     (mk_thread False (mk_stdio ''ABCDEF'' 8 [] 0 False)) ''xyz''
     = Some (3, mk_thread False ((mk_stdio ''ABCDEFxyz'' 16 [] 0 False)\<lparr>woken := [Input_wait]\<rparr>))"
    by (simp add: thread_with_stdio_write_def thread_with_stdio_write_step_def
        darray_make_room_gfp_def darray_room_def nr_def mk_thread_def mk_stdio_def
        ok_access_def fault_in_bytes_def wake_up_def Let_def STDIO_REDIRECT_BUFSIZE_def r9)
  from thread_with_stdio_write_within_capacity [OF 1 2 3 4 5] 3 4 5
  show ?thesis by (simp add: mk_thread_def)
qed

text \<open>
  The invariant holds when \<open>run_thread_with_stdio\<close> has initialised the buffers, and
  the functions that take bytes out of the input buffer keep it, so that it holds
  before every \<open>thread_with_stdio_write\<close>.
\<close>

lemma darray_remove_items_within:
  "darray_within bufsize d \<Longrightarrow> darray_within bufsize (darray_remove_items d n)"
  by (auto simp: darray_within_def darray_remove_items_def nr_def)

lemma input_inv_init:
  "input_inv bufsize (fst (snd (run_thread_with_stdio kt gfd af t)))"
  by (simp add: input_inv_def darray_within_def run_thread_with_stdio_def stdio_buf_init_def
      darray_init_def nr_def split: prod.splits)

lemma stdio_redirect_read_within:
  assumes "stdio_redirect_read sched s len = Some (r, bs, s')"
    and "darray_within bufsize (input_buf s)"
    and "rely (\<lambda>s. darray_within bufsize (input_buf s)) sched"
  shows "darray_within bufsize (input_buf s')"
proof -
  from assms(1) obtain sched1 s1 where
    w: "wait_event stdio_redirect_has_input sched s = Some (sched1, s1)"
    by (auto simp: stdio_redirect_read_def split: option.splits)
  from wait_event_rely [OF w, of "\<lambda>s. darray_within bufsize (input_buf s)"] assms(2,3)
  have "darray_within bufsize (input_buf s1)" by simp
  moreover from assms(1) w have "s' = s1 \<or>
      s' = wake_up Input_wait
             (s1\<lparr>input_buf := darray_remove_items (input_buf s1) (min len (nr (input_buf s1)))\<rparr>)"
    by (auto simp: stdio_redirect_read_def Let_def split: if_splits)
  ultimately show ?thesis
    by (auto simp: wake_up_def darray_remove_items_within)
qed

lemma readline_again_within:
  "stdio_redirect_readline_again sched s len acc = Some (r, bs, s') \<Longrightarrow>
   darray_within bufsize (input_buf s) \<Longrightarrow>
   rely (\<lambda>s. darray_within bufsize (input_buf s)) sched \<Longrightarrow>
   darray_within bufsize (input_buf s')"
proof (induction sched s len acc arbitrary: r bs s' rule: stdio_redirect_readline_again.induct)
  case (1 sched stdio len acc)
  obtain sched' s where
    w: "wait_event stdio_redirect_has_input sched stdio = Some (sched', s)"
  proof (cases "wait_event stdio_redirect_has_input sched stdio")
    case None
    with "1.prems"(1) show ?thesis
      by (subst (asm) stdio_redirect_readline_again.simps) simp
  next
    case (Some p)
    then show ?thesis using that by (cases p) auto
  qed
  from wait_event_rely [OF w, of "\<lambda>s. darray_within bufsize (input_buf s)"] "1.prems"(2,3)
  have i: "darray_within bufsize (input_buf s)"
    "rely (\<lambda>s. darray_within bufsize (input_buf s)) sched'" by simp_all
  show ?case
  proof (cases "done_stdio s")
    case True
    have "stdio_redirect_readline_again sched stdio len acc =
        Some (if length acc \<noteq> 0 then int (length acc) else - 1, acc, s)"
      by (subst stdio_redirect_readline_again.simps) (simp add: w True)
    with "1.prems"(1) i show ?thesis by auto
  next
    case False
    define b0 where "b0 = min len (nr (input_buf s))"
    define n where "n = memchr (data (input_buf s)) (CHR 0x0A) b0"
    define b where "b = (case n of None \<Rightarrow> b0 | Some i \<Rightarrow> min b0 (i + 1))"
    define acc' where "acc' = acc @ take b (data (input_buf s))"
    define s2 where "s2 = wake_up Input_wait (s\<lparr>input_buf := darray_remove_items (input_buf s) b\<rparr>)"
    have i2: "darray_within bufsize (input_buf s2)"
      using i(1) by (simp add: s2_def wake_up_def darray_remove_items_within)
    have unf: "stdio_redirect_readline_again sched stdio len acc =
        (if n = None \<and> len - b \<noteq> 0
         then stdio_redirect_readline_again sched' s2 (len - b) acc'
         else Some (if length acc' \<noteq> 0 then int (length acc') else 0, acc', s2))"
      unfolding b0_def n_def b_def acc'_def s2_def
      by (subst stdio_redirect_readline_again.simps) (simp add: w False Let_def)
    show ?thesis
    proof (cases "n = None \<and> len - b \<noteq> 0")
      case True
      from True unf "1.prems"(1)
      have rec: "stdio_redirect_readline_again sched' s2 (len - b) acc' = Some (r, bs, s')"
        by simp
      from "1.IH" [OF w refl False b0_def n_def b_def acc'_def s2_def True rec i2 i(2)]
      show ?thesis .
    next
      case False
      with unf "1.prems"(1) have "s' = s2" by auto
      with i2 show ?thesis by simp
    qed
  qed
qed

lemma stdio_redirect_readline_within:
  "stdio_redirect_readline sched s len = Some (r, bs, s') \<Longrightarrow>
   darray_within bufsize (input_buf s) \<Longrightarrow>
   rely (\<lambda>s. darray_within bufsize (input_buf s)) sched \<Longrightarrow>
   darray_within bufsize (input_buf s')"
  unfolding stdio_redirect_readline_def by (rule readline_again_within)

lemma thread_with_stdio_done_within:
  "input_inv bufsize t \<Longrightarrow> input_inv bufsize (thread_with_stdio_done t)"
  by (simp add: input_inv_def thread_with_stdio_done_def wake_up_def)

subsection \<open>Writing after the channel is closed\<close>

lemma write_step_data:
  assumes "thread_with_stdio_write_step bufsize grow u buf ubuf b0 = (b, cp, buf')"
  shows "b \<le> length ubuf \<and> (cp \<longrightarrow> b \<noteq> 0) \<and>
         data buf' = (if cp then data buf @ take b ubuf else data buf)"
  using assms
  by (auto simp: thread_with_stdio_write_step_def Let_def darray_make_room_gfp_def
      split: if_splits)

lemma write_loop_result:
  "thread_with_stdio_write_loop bufsize grow us sched nb t ubuf copied = Some (c, r, t') \<Longrightarrow>
   copied \<le> c \<and> c - copied \<le> length ubuf \<and>
   r \<in> {0, - EPIPE, - EFAULT, - EAGAIN, - ERESTARTSYS} \<and>
   (r = 0 \<longrightarrow> c - copied = length ubuf) \<and>
   (nb \<longrightarrow> data (input_buf (stdio t')) = data (input_buf (stdio t)) @ take (c - copied) ubuf)"
proof (induction us arbitrary: sched t ubuf copied)
  case Nil
  then show ?case by (auto simp: errno_defs split: if_splits)
next
  case (Cons u us)
  define b0 where "b0 = length ubuf - fault_in_bytes u (length ubuf)"
  show ?case
  proof (cases "length ubuf = 0 \<or> done_thr (thr t) \<or> b0 = 0")
    case True
    with Cons.prems(1) show ?thesis
      by (auto simp: b0_def Let_def errno_defs split: if_splits)
  next
    case False
    obtain b cp buf where
      st: "thread_with_stdio_write_step bufsize grow u (input_buf (stdio t)) ubuf b0 = (b, cp, buf)"
      by (cases "thread_with_stdio_write_step bufsize grow u (input_buf (stdio t)) ubuf b0") auto
    define t1 where "t1 = t\<lparr>stdio := (stdio t)\<lparr>input_buf := buf\<rparr>\<rparr>"
    define ubuf' where "ubuf' = (if cp then drop b ubuf else ubuf)"
    define copied' where "copied' = (if cp then copied + b else copied)"
    have unf: "thread_with_stdio_write_loop bufsize grow (u # us) sched nb t ubuf copied =
      (if b \<noteq> 0
       then thread_with_stdio_write_loop bufsize grow us sched nb
              (t1\<lparr>stdio := wake_up Input_wait (stdio t1)\<rparr>) ubuf' copied'
       else if nb then Some (copied', - EAGAIN, t1)
       else (case wait_event_interruptible
                    (\<lambda>t. stdio_redirect_has_input_space bufsize (stdio t)) sched t1 of
               None \<Rightarrow> None
             | Some (r, sched', t2) \<Rightarrow>
                 if r \<noteq> 0 then Some (copied', r, t2)
                 else thread_with_stdio_write_loop bufsize grow us sched' nb t2 ubuf' copied'))"
      using False st unfolding t1_def ubuf'_def copied'_def b0_def
      by (simp add: Let_def)
    from write_step_data [OF st]
    have sd: "b \<le> length ubuf" "cp \<longrightarrow> b \<noteq> 0"
      "data buf = (if cp then data (input_buf (stdio t)) @ take b ubuf else data (input_buf (stdio t)))"
      by auto
    have d1: "data (input_buf (stdio (t1\<lparr>stdio := wake_up Input_wait (stdio t1)\<rparr>))) = data buf"
      "data (input_buf (stdio t1)) = data buf"
      by (simp_all add: t1_def wake_up_def)
    show ?thesis
    proof (cases "b \<noteq> 0")
      case True
      with unf Cons.prems(1)
      have "thread_with_stdio_write_loop bufsize grow us sched nb
              (t1\<lparr>stdio := wake_up Input_wait (stdio t1)\<rparr>) ubuf' copied' = Some (c, r, t')"
        by simp
      from Cons.IH [OF this]
      have ih: "copied' \<le> c" "c - copied' \<le> length ubuf'"
        "r \<in> {0, - EPIPE, - EFAULT, - EAGAIN, - ERESTARTSYS}"
        "r = 0 \<longrightarrow> c - copied' = length ubuf'"
        "nb \<longrightarrow> data (input_buf (stdio t')) = data buf @ take (c - copied') ubuf'"
        using d1 by auto
      show ?thesis
      proof (cases cp)
        case True
        then have e: "copied' = copied + b" "ubuf' = drop b ubuf" by (simp_all add: copied'_def ubuf'_def)
        have "c - copied = b + (c - copied')" using ih(1) e by simp
        moreover have "take (b + (c - copied')) ubuf = take b ubuf @ take (c - copied') (drop b ubuf)"
          by (simp add: take_add)
        ultimately show ?thesis using ih e sd True by auto
      next
        case False
        then have e: "copied' = copied" "ubuf' = ubuf" by (simp_all add: copied'_def ubuf'_def)
        show ?thesis using ih e sd False by auto
      qed
    next
      case b: False
      then have e: "copied' = copied" "ubuf' = ubuf" "data buf = data (input_buf (stdio t))"
        using sd by (auto simp: copied'_def ubuf'_def)
      show ?thesis
      proof (cases nb)
        case True
        with b unf Cons.prems(1) have "t' = t1" "c = copied'" "r = - EAGAIN" by simp_all
        with e d1 show ?thesis by (simp add: errno_defs)
      next
        case False
        with b unf Cons.prems(1) obtain r2 sched' t2 where
          w: "wait_event_interruptible
                (\<lambda>t. stdio_redirect_has_input_space bufsize (stdio t)) sched t1
              = Some (r2, sched', t2)"
          and res: "(if r2 \<noteq> 0 then Some (copied', r2, t2)
                 else thread_with_stdio_write_loop bufsize grow us sched' nb t2 ubuf' copied')
                = Some (c, r, t')"
          by (auto split: option.splits)
        show ?thesis
        proof (cases "r2 \<noteq> 0")
          case True
          with res have "c = copied'" "r = r2" by simp_all
          moreover from wait_event_interruptible_ret [OF w] True have "r2 = - ERESTARTSYS" by simp
          ultimately show ?thesis using e False by (simp add: errno_defs)
        next
          case r0: False
          with res have "thread_with_stdio_write_loop bufsize grow us sched' nb t2 ubuf' copied'
                = Some (c, r, t')" by simp
          from Cons.IH [OF this] show ?thesis using e False by simp
        qed
      qed
    qed
  qed
qed

lemma write_loop_done:
  "done_thr (thr t) \<Longrightarrow> ubuf \<noteq> [] \<Longrightarrow>
   thread_with_stdio_write_loop bufsize grow us sched nb t ubuf copied = Some (copied, - EPIPE, t)"
  by (cases us) simp_all

lemma write_loop_empty:
  "thread_with_stdio_write_loop bufsize grow us sched nb t [] copied = Some (copied, 0, t)"
  by (cases us) simp_all

lemma write_loop_data_rel:
  assumes app: "\<And>d x xs. Q d x \<Longrightarrow> Q (d @ xs) (x @ xs)"
  shows "thread_with_stdio_write_loop bufsize grow us sched nb t ubuf copied = Some (c, r, t') \<Longrightarrow>
   \<forall>d. rely (\<lambda>t. Q d (data (input_buf (stdio t)))) sched \<Longrightarrow>
   Q d (data (input_buf (stdio t))) \<Longrightarrow>
   Q (d @ take (c - copied) ubuf) (data (input_buf (stdio t')))"
proof (induction us arbitrary: sched t ubuf copied d)
  case Nil
  then show ?case by (auto split: if_splits)
next
  case (Cons u us)
  define b0 where "b0 = length ubuf - fault_in_bytes u (length ubuf)"
  show ?case
  proof (cases "length ubuf = 0 \<or> done_thr (thr t) \<or> b0 = 0")
    case True
    with Cons.prems(1) have "t' = t" "c = copied"
      by (auto simp: b0_def Let_def split: if_splits)
    with Cons.prems(3) show ?thesis by simp
  next
    case False
    obtain b cp buf where
      st: "thread_with_stdio_write_step bufsize grow u (input_buf (stdio t)) ubuf b0 = (b, cp, buf)"
      by (cases "thread_with_stdio_write_step bufsize grow u (input_buf (stdio t)) ubuf b0") auto
    define t1 where "t1 = t\<lparr>stdio := (stdio t)\<lparr>input_buf := buf\<rparr>\<rparr>"
    define ubuf' where "ubuf' = (if cp then drop b ubuf else ubuf)"
    define copied' where "copied' = (if cp then copied + b else copied)"
    define d' where "d' = (if cp then d @ take b ubuf else d)"
    have unf: "thread_with_stdio_write_loop bufsize grow (u # us) sched nb t ubuf copied =
      (if b \<noteq> 0
       then thread_with_stdio_write_loop bufsize grow us sched nb
              (t1\<lparr>stdio := wake_up Input_wait (stdio t1)\<rparr>) ubuf' copied'
       else if nb then Some (copied', - EAGAIN, t1)
       else (case wait_event_interruptible
                    (\<lambda>t. stdio_redirect_has_input_space bufsize (stdio t)) sched t1 of
               None \<Rightarrow> None
             | Some (r, sched', t2) \<Rightarrow>
                 if r \<noteq> 0 then Some (copied', r, t2)
                 else thread_with_stdio_write_loop bufsize grow us sched' nb t2 ubuf' copied'))"
      using False st unfolding t1_def ubuf'_def copied'_def b0_def
      by (simp add: Let_def)
    from write_step_data [OF st]
    have sd: "b \<le> length ubuf" "cp \<longrightarrow> b \<noteq> 0"
      "data buf = (if cp then data (input_buf (stdio t)) @ take b ubuf else data (input_buf (stdio t)))"
      by auto
    have q1: "Q d' (data buf)"
      using sd(3) Cons.prems(3) app by (simp add: d'_def)
    have d1: "data (input_buf (stdio (t1\<lparr>stdio := wake_up Input_wait (stdio t1)\<rparr>))) = data buf"
      "data (input_buf (stdio t1)) = data buf"
      by (simp_all add: t1_def wake_up_def)
    have fin: "d' @ take (c - copied') ubuf' = d @ take (c - copied) ubuf" if "copied' \<le> c"
    proof (cases cp)
      case True
      then have e: "copied' = copied + b" "ubuf' = drop b ubuf" "d' = d @ take b ubuf"
        by (simp_all add: copied'_def ubuf'_def d'_def)
      have "c - copied = b + (c - copied')" using that e by simp
      moreover have "take (b + (c - copied')) ubuf = take b ubuf @ take (c - copied') (drop b ubuf)"
        by (simp add: take_add)
      ultimately show ?thesis using e by simp
    next
      case False
      then show ?thesis by (simp add: copied'_def ubuf'_def d'_def)
    qed
    show ?thesis
    proof (cases "b \<noteq> 0")
      case True
      with unf Cons.prems(1)
      have rec: "thread_with_stdio_write_loop bufsize grow us sched nb
              (t1\<lparr>stdio := wake_up Input_wait (stdio t1)\<rparr>) ubuf' copied' = Some (c, r, t')"
        by simp
      from write_loop_result [OF rec] have le: "copied' \<le> c" by simp
      from Cons.IH [OF rec Cons.prems(2), of d'] q1 d1
      have "Q (d' @ take (c - copied') ubuf') (data (input_buf (stdio t')))" by simp
      with fin [OF le] show ?thesis by simp
    next
      case b: False
      show ?thesis
      proof (cases nb)
        case True
        with b unf Cons.prems(1) have "t' = t1" "c = copied'" by simp_all
        with q1 d1 fin [of] show ?thesis by simp
      next
        case False
        with b unf Cons.prems(1) obtain r2 sched' t2 where
          w: "wait_event_interruptible
                (\<lambda>t. stdio_redirect_has_input_space bufsize (stdio t)) sched t1
              = Some (r2, sched', t2)"
          and res: "(if r2 \<noteq> 0 then Some (copied', r2, t2)
                 else thread_with_stdio_write_loop bufsize grow us sched' nb t2 ubuf' copied')
                = Some (c, r, t')"
          by (auto split: option.splits)
        have "rely (\<lambda>t. Q d' (data (input_buf (stdio t)))) sched"
          using Cons.prems(2) by blast
        from wait_event_interruptible_rely [OF w _ this] q1 d1
        have q2: "Q d' (data (input_buf (stdio t2)))" by simp
        have r': "\<forall>d. rely (\<lambda>t. Q d (data (input_buf (stdio t)))) sched'"
          using Cons.prems(2) wait_event_interruptible_sched_subset [OF w] rely_subset by blast
        show ?thesis
        proof (cases "r2 \<noteq> 0")
          case True
          with res have "c = copied'" "t' = t2" by simp_all
          with q2 fin [of] show ?thesis by simp
        next
          case r0: False
          with res have rec: "thread_with_stdio_write_loop bufsize grow us sched' nb t2 ubuf' copied'
                = Some (c, r, t')" by simp
          from write_loop_result [OF rec] have le: "copied' \<le> c" by simp
          from Cons.IH [OF rec r' q2]
          have "Q (d' @ take (c - copied') ubuf') (data (input_buf (stdio t')))" .
          with fin [OF le] show ?thesis by simp
        qed
      qed
    qed
  qed
qed

lemma write_loop_blocked_then_woken:
  "thread_with_stdio_write_loop bufsize grow us sched True t ubuf copied = Some (c, - EAGAIN, t1) \<Longrightarrow>
   wait_event_interruptible (\<lambda>t. stdio_redirect_has_input_space bufsize (stdio t)) sched t1
     = Some (r2, sched1, t2) \<Longrightarrow>
   r2 \<noteq> 0 \<or> done_thr (thr t2) \<Longrightarrow>
   thread_with_stdio_write_loop bufsize grow us sched False t ubuf copied
     = Some (c, if r2 \<noteq> 0 then r2 else - EPIPE, t2)"
proof (induction us arbitrary: t ubuf copied)
  case Nil
  then show ?case by (auto simp: errno_defs split: if_splits)
next
  case (Cons u us)
  define b0 where "b0 = length ubuf - fault_in_bytes u (length ubuf)"
  show ?case
  proof (cases "length ubuf = 0 \<or> done_thr (thr t) \<or> b0 = 0")
    case True
    with Cons.prems(1) show ?thesis
      by (auto simp: b0_def Let_def errno_defs split: if_splits)
  next
    case False
    obtain b cp buf where
      st: "thread_with_stdio_write_step bufsize grow u (input_buf (stdio t)) ubuf b0 = (b, cp, buf)"
      by (cases "thread_with_stdio_write_step bufsize grow u (input_buf (stdio t)) ubuf b0") auto
    define t1' where "t1' = t\<lparr>stdio := (stdio t)\<lparr>input_buf := buf\<rparr>\<rparr>"
    define ubuf' where "ubuf' = (if cp then drop b ubuf else ubuf)"
    define copied' where "copied' = (if cp then copied + b else copied)"
    have unf: "thread_with_stdio_write_loop bufsize grow (u # us) sched nb t ubuf copied =
      (if b \<noteq> 0
       then thread_with_stdio_write_loop bufsize grow us sched nb
              (t1'\<lparr>stdio := wake_up Input_wait (stdio t1')\<rparr>) ubuf' copied'
       else if nb then Some (copied', - EAGAIN, t1')
       else (case wait_event_interruptible
                    (\<lambda>t. stdio_redirect_has_input_space bufsize (stdio t)) sched t1' of
               None \<Rightarrow> None
             | Some (r, sched', t2) \<Rightarrow>
                 if r \<noteq> 0 then Some (copied', r, t2)
                 else thread_with_stdio_write_loop bufsize grow us sched' nb t2 ubuf' copied'))" for nb
      using False st unfolding t1'_def ubuf'_def copied'_def b0_def
      by (simp add: Let_def)
    from write_step_data [OF st] have sd: "cp \<longrightarrow> b \<noteq> 0" by auto
    show ?thesis
    proof (cases "b \<noteq> 0")
      case True
      with unf [of True] Cons.prems(1)
      have "thread_with_stdio_write_loop bufsize grow us sched True
              (t1'\<lparr>stdio := wake_up Input_wait (stdio t1')\<rparr>) ubuf' copied' = Some (c, - EAGAIN, t1)"
        by simp
      from Cons.IH [OF this Cons.prems(2,3)] True unf [of False] show ?thesis by simp
    next
      case b: False
      with unf [of True] Cons.prems(1) have e: "c = copied'" "t1 = t1'" by simp_all
      from b sd have u: "ubuf' = ubuf" by (simp add: ubuf'_def)
      from False have ne: "ubuf \<noteq> []" by simp
      show ?thesis
      proof (cases "r2 \<noteq> 0")
        case True
        with b unf [of False] Cons.prems(2) e show ?thesis by simp
      next
        case r0: False
        with Cons.prems(3) have "done_thr (thr t2)" by simp
        from write_loop_done [OF this ne]
        have "thread_with_stdio_write_loop bufsize grow us sched1 False t2 ubuf copied'
              = Some (copied', - EPIPE, t2)" .
        with r0 b unf [of False] Cons.prems(2) e u show ?thesis by simp
      qed
    qed
  qed
qed

text \<open>
  C5 (as stated, refuted). The claim: every write on a closed channel that accepts no
  bytes fails with \<open>BrokenPipe\<close>, for \<open>thread_with_stdio_write\<close> and for the worker's
  write alike. A \<open>thread_with_stdio_write\<close> of no bytes on a closed channel returns 0:
  the test of \<open>thr->thr.done\<close> is inside \<open>while (len)\<close>. The worker's write,
  \<open>stdio_redirect_vprintf\<close>, returns \<open>void\<close>: on a closed channel it returns without
  having written and there is no error for it to return.
\<close>

theorem write_after_close_counterexample:
  "thread_with_stdio_write STDIO_REDIRECT_BUFSIZE roundup_pow_of_two [] [] True
     (mk_thread True (mk_stdio [] 0 [] 0 True)) []
     = Some (0, mk_thread True (mk_stdio [] 0 [] 0 True)) \<and>
   stdio_redirect_vprintf STDIO_REDIRECT_BUFSIZE roundup_pow_of_two [] []
     (mk_stdio [] 0 [] 0 True) True ''hello''
     = Some (mk_stdio [] 0 [] 0 True)"
  by (simp add: thread_with_stdio_write_def stdio_redirect_vprintf_def mk_stdio_def
      stdio_redirect_has_output_space_def)

text \<open>
  C5 (amended). A \<open>thread_with_stdio_write\<close> of at least one byte on a closed channel
  returns \<open>-EPIPE\<close> and changes nothing; a write of no bytes returns 0 and changes
  nothing. \<open>stdio_redirect_vprintf\<close> on a closed channel returns with the channel
  unchanged. Whenever \<open>thread_with_stdio_write\<close> returns \<open>r\<close>: if \<open>r > 0\<close> then \<open>r\<close> is
  the number of bytes accepted, at most \<open>len\<close>; otherwise \<open>r\<close> is 0 or one of
  \<open>-EPIPE\<close>, \<open>-EFAULT\<close>, \<open>-EAGAIN\<close>, \<open>-ERESTARTSYS\<close>, it is 0 only for a write of no
  bytes, and nothing has been accepted. The bytes accepted are the first \<open>r\<close> bytes of
  the caller's buffer, appended to the input buffer: for a non-blocking call, and for
  a blocking call during whose sleeps the other threads leave the content of the
  input buffer as it is, the input buffer after the call is the one before followed by
  those bytes; when the other threads only take bytes from the front of the input
  buffer, it is what is left of that. A blocking call that has accepted \<open>c\<close> bytes when
  the buffer has no more room (where the non-blocking call stops with \<open>-EAGAIN\<close>),
  and is then woken by a signal or finds the handle closed, returns \<open>c\<close> if \<open>c > 0\<close>,
  and else \<open>-ERESTARTSYS\<close> or \<open>-EPIPE\<close>.
\<close>

theorem write_after_close:
  "(done_thr (thr t) \<and> ubuf \<noteq> [] \<longrightarrow>
      thread_with_stdio_write bufsize grow us sched nb t ubuf = Some (- EPIPE, t)) \<and>
   thread_with_stdio_write bufsize grow us sched nb t [] = Some (0, t) \<and>
   (done_stdio s \<longrightarrow> stdio_redirect_vprintf bufsize grow allocs sched' s nb str = Some s) \<and>
   (\<forall>r t'. thread_with_stdio_write bufsize grow us sched nb t ubuf = Some (r, t') \<longrightarrow>
      (0 < r \<longrightarrow> nat r \<le> length ubuf \<and>
         (nb \<longrightarrow> data (input_buf (stdio t')) = data (input_buf (stdio t)) @ take (nat r) ubuf)) \<and>
      (r \<le> 0 \<longrightarrow> r \<in> {0, - EPIPE, - EFAULT, - EAGAIN, - ERESTARTSYS} \<and>
         (r = 0 \<longrightarrow> ubuf = []) \<and>
         (nb \<longrightarrow> data (input_buf (stdio t')) = data (input_buf (stdio t))))) \<and>
   (\<forall>r t'. thread_with_stdio_write bufsize grow us sched nb t ubuf = Some (r, t') \<and>
      (\<forall>f. Act f \<in> set sched \<longrightarrow>
         (\<forall>x. data (input_buf (stdio (f x))) = data (input_buf (stdio x)))) \<longrightarrow>
      (0 < r \<longrightarrow>
         data (input_buf (stdio t')) = data (input_buf (stdio t)) @ take (nat r) ubuf) \<and>
      (r \<le> 0 \<longrightarrow> data (input_buf (stdio t')) = data (input_buf (stdio t)))) \<and>
   (\<forall>r t'. thread_with_stdio_write bufsize grow us sched nb t ubuf = Some (r, t') \<and>
      (\<forall>f. Act f \<in> set sched \<longrightarrow>
         (\<forall>x. \<exists>k. data (input_buf (stdio (f x))) = drop k (data (input_buf (stdio x))))) \<longrightarrow>
      (0 < r \<longrightarrow>
         (\<exists>k. data (input_buf (stdio t')) =
               drop k (data (input_buf (stdio t)) @ take (nat r) ubuf))) \<and>
      (r \<le> 0 \<longrightarrow> (\<exists>k. data (input_buf (stdio t')) = drop k (data (input_buf (stdio t)))))) \<and>
   (\<forall>c t1 r2 sched1 t2.
      thread_with_stdio_write_loop bufsize grow us sched True t ubuf 0 = Some (c, - EAGAIN, t1) \<and>
      wait_event_interruptible (\<lambda>t. stdio_redirect_has_input_space bufsize (stdio t)) sched t1
        = Some (r2, sched1, t2) \<and>
      (r2 \<noteq> 0 \<or> done_thr (thr t2)) \<longrightarrow>
      thread_with_stdio_write bufsize grow us sched False t ubuf
        = Some (if c \<noteq> 0 then int c else if r2 \<noteq> 0 then r2 else - EPIPE, t2) \<and>
      c \<le> length ubuf \<and>
      data (input_buf (stdio t1)) = data (input_buf (stdio t)) @ take c ubuf)"
proof -
  have res: "\<exists>c r'. thread_with_stdio_write_loop bufsize grow us sched nb t ubuf 0 = Some (c, r', t') \<and>
      r = (if c \<noteq> 0 then int c else r') \<and> r' \<le> 0 \<and> c \<le> length ubuf \<and>
      r' \<in> {0, - EPIPE, - EFAULT, - EAGAIN, - ERESTARTSYS} \<and> (r' = 0 \<longrightarrow> c = length ubuf)"
    if "thread_with_stdio_write bufsize grow us sched nb t ubuf = Some (r, t')" for r t'
  proof -
    from that obtain c r' where
      l: "thread_with_stdio_write_loop bufsize grow us sched nb t ubuf 0 = Some (c, r', t')"
      and r: "r = (if c \<noteq> 0 then int c else r')"
      by (auto simp: thread_with_stdio_write_def split: option.splits)
    from write_loop_result [OF l]
    have p: "c \<le> length ubuf" "r' \<in> {0, - EPIPE, - EFAULT, - EAGAIN, - ERESTARTSYS}"
      "r' = 0 \<longrightarrow> c = length ubuf" by auto
    then have "r' \<le> 0" by (auto simp: errno_defs)
    with l r p show ?thesis by blast
  qed
  have c1: "done_thr (thr t) \<and> ubuf \<noteq> [] \<longrightarrow>
      thread_with_stdio_write bufsize grow us sched nb t ubuf = Some (- EPIPE, t)"
    by (simp add: thread_with_stdio_write_def write_loop_done)
  have c2: "thread_with_stdio_write bufsize grow us sched nb t [] = Some (0, t)"
    by (simp add: thread_with_stdio_write_def write_loop_empty)
  have c3: "done_stdio s \<longrightarrow> stdio_redirect_vprintf bufsize grow allocs sched' s nb str = Some s"
    by (simp add: stdio_redirect_vprintf_def wait_event_now stdio_redirect_has_output_space_def)
  have c4: "\<forall>r t'. thread_with_stdio_write bufsize grow us sched nb t ubuf = Some (r, t') \<longrightarrow>
      (0 < r \<longrightarrow> nat r \<le> length ubuf \<and>
         (nb \<longrightarrow> data (input_buf (stdio t')) = data (input_buf (stdio t)) @ take (nat r) ubuf)) \<and>
      (r \<le> 0 \<longrightarrow> r \<in> {0, - EPIPE, - EFAULT, - EAGAIN, - ERESTARTSYS} \<and>
         (r = 0 \<longrightarrow> ubuf = []) \<and>
         (nb \<longrightarrow> data (input_buf (stdio t')) = data (input_buf (stdio t))))"
  proof (intro allI impI)
    fix r t'
    assume a: "thread_with_stdio_write bufsize grow us sched nb t ubuf = Some (r, t')"
    from res [OF a] obtain c r' where
      l: "thread_with_stdio_write_loop bufsize grow us sched nb t ubuf 0 = Some (c, r', t')"
      and r: "r = (if c \<noteq> 0 then int c else r')" and n: "r' \<le> 0" and le: "c \<le> length ubuf"
      and m: "r' \<in> {0, - EPIPE, - EFAULT, - EAGAIN, - ERESTARTSYS}"
      and z: "r' = 0 \<longrightarrow> c = length ubuf"
      by blast
    from write_loop_result [OF l]
    have d: "nb \<longrightarrow> data (input_buf (stdio t')) = data (input_buf (stdio t)) @ take c ubuf"
      by simp
    show "(0 < r \<longrightarrow> nat r \<le> length ubuf \<and>
         (nb \<longrightarrow> data (input_buf (stdio t')) = data (input_buf (stdio t)) @ take (nat r) ubuf)) \<and>
      (r \<le> 0 \<longrightarrow> r \<in> {0, - EPIPE, - EFAULT, - EAGAIN, - ERESTARTSYS} \<and>
         (r = 0 \<longrightarrow> ubuf = []) \<and>
         (nb \<longrightarrow> data (input_buf (stdio t')) = data (input_buf (stdio t))))"
    proof (cases "c = 0")
      case True
      with r n m z d show ?thesis by auto
    next
      case False
      with r n le d show ?thesis by auto
    qed
  qed
  have c5: "\<forall>r t'. thread_with_stdio_write bufsize grow us sched nb t ubuf = Some (r, t') \<and>
      (\<forall>f. Act f \<in> set sched \<longrightarrow>
         (\<forall>x. data (input_buf (stdio (f x))) = data (input_buf (stdio x)))) \<longrightarrow>
      (0 < r \<longrightarrow>
         data (input_buf (stdio t')) = data (input_buf (stdio t)) @ take (nat r) ubuf) \<and>
      (r \<le> 0 \<longrightarrow> data (input_buf (stdio t')) = data (input_buf (stdio t)))"
  proof (intro allI impI, elim conjE)
    fix r t'
    assume a: "thread_with_stdio_write bufsize grow us sched nb t ubuf = Some (r, t')"
      and k: "\<forall>f. Act f \<in> set sched \<longrightarrow>
         (\<forall>x. data (input_buf (stdio (f x))) = data (input_buf (stdio x)))"
    from res [OF a] obtain c r' where
      l: "thread_with_stdio_write_loop bufsize grow us sched nb t ubuf 0 = Some (c, r', t')"
      and r: "r = (if c \<noteq> 0 then int c else r')" and n: "r' \<le> 0"
      by blast
    have rl: "\<forall>d. rely (\<lambda>t. data (input_buf (stdio t)) = d) sched"
      using k by (simp add: rely_def)
    have "data (input_buf (stdio t')) = data (input_buf (stdio t)) @ take (c - 0) ubuf"
      by (rule write_loop_data_rel [where Q = "\<lambda>d x. x = d", OF _ l rl]) simp_all
    then show "(0 < r \<longrightarrow>
         data (input_buf (stdio t')) = data (input_buf (stdio t)) @ take (nat r) ubuf) \<and>
      (r \<le> 0 \<longrightarrow> data (input_buf (stdio t')) = data (input_buf (stdio t)))"
      using r n by (cases "c = 0") auto
  qed
  have c6: "\<forall>r t'. thread_with_stdio_write bufsize grow us sched nb t ubuf = Some (r, t') \<and>
      (\<forall>f. Act f \<in> set sched \<longrightarrow>
         (\<forall>x. \<exists>k. data (input_buf (stdio (f x))) = drop k (data (input_buf (stdio x))))) \<longrightarrow>
      (0 < r \<longrightarrow>
         (\<exists>k. data (input_buf (stdio t')) =
               drop k (data (input_buf (stdio t)) @ take (nat r) ubuf))) \<and>
      (r \<le> 0 \<longrightarrow> (\<exists>k. data (input_buf (stdio t')) = drop k (data (input_buf (stdio t)))))"
  proof (intro allI impI, elim conjE)
    fix r t'
    assume a: "thread_with_stdio_write bufsize grow us sched nb t ubuf = Some (r, t')"
      and k: "\<forall>f. Act f \<in> set sched \<longrightarrow>
         (\<forall>x. \<exists>k. data (input_buf (stdio (f x))) = drop k (data (input_buf (stdio x))))"
    from res [OF a] obtain c r' where
      l: "thread_with_stdio_write_loop bufsize grow us sched nb t ubuf 0 = Some (c, r', t')"
      and r: "r = (if c \<noteq> 0 then int c else r')" and n: "r' \<le> 0"
      by blast
    let ?Q = "\<lambda>d x. \<exists>k\<le>length d. x = drop k (d :: char list)"
    have rl: "\<forall>d. rely (\<lambda>t. ?Q d (data (input_buf (stdio t)))) sched"
      unfolding rely_def
    proof (intro allI impI)
      fix d :: "char list" and f :: "thread_with_stdio \<Rightarrow> thread_with_stdio"
        and x :: thread_with_stdio
      assume f: "Act f \<in> set sched" and q: "?Q d (data (input_buf (stdio x)))"
      from q obtain k1 where k1: "k1 \<le> length d" "data (input_buf (stdio x)) = drop k1 d" by blast
      from k f obtain k2 where "data (input_buf (stdio (f x))) = drop k2 (data (input_buf (stdio x)))"
        by blast
      with k1 have e: "data (input_buf (stdio (f x))) = drop (k2 + k1) d" by simp
      have "drop (k2 + k1) d = drop (min (k2 + k1) (length d)) d"
        by (cases "k2 + k1 \<le> length d") (simp_all add: min_def)
      with e show "?Q d (data (input_buf (stdio (f x))))"
        by (intro exI [of _ "min (k2 + k1) (length d)"]) simp
    qed
    have q0: "?Q (data (input_buf (stdio t))) (data (input_buf (stdio t)))"
      by (intro exI [of _ 0]) simp
    have "?Q (data (input_buf (stdio t)) @ take (c - 0) ubuf) (data (input_buf (stdio t')))"
    proof (rule write_loop_data_rel [where Q = ?Q, OF _ l rl q0])
      fix d x :: "char list" and xs
      assume "?Q d x"
      then obtain k where "k \<le> length d" "x = drop k d" by blast
      then show "?Q (d @ xs) (x @ xs)" by (intro exI [of _ k]) simp
    qed
    then have "\<exists>k. data (input_buf (stdio t')) = drop k (data (input_buf (stdio t)) @ take c ubuf)"
      by auto
    then show "(0 < r \<longrightarrow>
         (\<exists>k. data (input_buf (stdio t')) =
               drop k (data (input_buf (stdio t)) @ take (nat r) ubuf))) \<and>
      (r \<le> 0 \<longrightarrow> (\<exists>k. data (input_buf (stdio t')) = drop k (data (input_buf (stdio t)))))"
      using r n by (cases "c = 0") auto
  qed
  have c7: "\<forall>c t1 r2 sched1 t2.
      thread_with_stdio_write_loop bufsize grow us sched True t ubuf 0 = Some (c, - EAGAIN, t1) \<and>
      wait_event_interruptible (\<lambda>t. stdio_redirect_has_input_space bufsize (stdio t)) sched t1
        = Some (r2, sched1, t2) \<and>
      (r2 \<noteq> 0 \<or> done_thr (thr t2)) \<longrightarrow>
      thread_with_stdio_write bufsize grow us sched False t ubuf
        = Some (if c \<noteq> 0 then int c else if r2 \<noteq> 0 then r2 else - EPIPE, t2) \<and>
      c \<le> length ubuf \<and>
      data (input_buf (stdio t1)) = data (input_buf (stdio t)) @ take c ubuf"
  proof (intro allI impI, elim conjE)
    fix c t1 r2 sched1 t2
    assume l: "thread_with_stdio_write_loop bufsize grow us sched True t ubuf 0
        = Some (c, - EAGAIN, t1)"
      and w: "wait_event_interruptible
          (\<lambda>t. stdio_redirect_has_input_space bufsize (stdio t)) sched t1 = Some (r2, sched1, t2)"
      and d: "r2 \<noteq> 0 \<or> done_thr (thr t2)"
    from write_loop_blocked_then_woken [OF l w d]
    have "thread_with_stdio_write bufsize grow us sched False t ubuf
        = Some (if c \<noteq> 0 then int c else if r2 \<noteq> 0 then r2 else - EPIPE, t2)"
      by (simp add: thread_with_stdio_write_def)
    moreover from write_loop_result [OF l]
    have "c \<le> length ubuf"
      "data (input_buf (stdio t1)) = data (input_buf (stdio t)) @ take c ubuf" by auto
    ultimately show "thread_with_stdio_write bufsize grow us sched False t ubuf
        = Some (if c \<noteq> 0 then int c else if r2 \<noteq> 0 then r2 else - EPIPE, t2) \<and>
      c \<le> length ubuf \<and>
      data (input_buf (stdio t1)) = data (input_buf (stdio t)) @ take c ubuf" by blast
  qed
  from c1 c2 c3 c4 c5 c6 c7 show ?thesis by (intro conjI)
qed

theorem write_after_close_witness:
  "done_thr (thr (mk_thread True (mk_stdio ''ab'' 8 [] 0 True))) \<and> ''xyz'' \<noteq> [] \<and>
   thread_with_stdio_write STDIO_REDIRECT_BUFSIZE roundup_pow_of_two [ok_access] [] True
     (mk_thread True (mk_stdio ''ab'' 8 [] 0 True)) ''xyz''
     = Some (- EPIPE, mk_thread True (mk_stdio ''ab'' 8 [] 0 True)) \<and>
   done_stdio (mk_stdio [] 0 ''ab'' 8 True) \<and>
   stdio_redirect_vprintf STDIO_REDIRECT_BUFSIZE roundup_pow_of_two [True] []
     (mk_stdio [] 0 ''ab'' 8 True) True ''hello'' = Some (mk_stdio [] 0 ''ab'' 8 True) \<and>
   thread_with_stdio_write 8 roundup_pow_of_two [ok_access, ok_access] [] True
     (mk_thread False (mk_stdio ''ABCDEF'' 8 [] 0 False)) ''xyz''
     = Some (2, mk_thread False ((mk_stdio ''ABCDEFxy'' 8 [] 0 False)\<lparr>woken := [Input_wait]\<rparr>)) \<and>
   (0::int) < 2 \<and> nat 2 \<le> length ''xyz'' \<and>
   thread_with_stdio_write_loop 8 roundup_pow_of_two [ok_access, ok_access]
     [Act thread_with_stdio_done] True
     (mk_thread False (mk_stdio ''ABCDEF'' 8 [] 0 False)) ''wxyz'' 0
     = Some (2, - EAGAIN,
         mk_thread False ((mk_stdio ''ABCDEFwx'' 8 [] 0 False)\<lparr>woken := [Input_wait]\<rparr>)) \<and>
   wait_event_interruptible (\<lambda>t. stdio_redirect_has_input_space 8 (stdio t))
     [Act thread_with_stdio_done]
     (mk_thread False ((mk_stdio ''ABCDEFwx'' 8 [] 0 False)\<lparr>woken := [Input_wait]\<rparr>))
     = Some (0, [], mk_thread True
         ((mk_stdio ''ABCDEFwx'' 8 [] 0 True)\<lparr>woken := [Input_wait, Input_wait, Output_wait]\<rparr>)) \<and>
   done_thr (thr (mk_thread True
         ((mk_stdio ''ABCDEFwx'' 8 [] 0 True)\<lparr>woken := [Input_wait, Input_wait, Output_wait]\<rparr>))) \<and>
   thread_with_stdio_write 8 roundup_pow_of_two [ok_access, ok_access]
     [Act thread_with_stdio_done] False
     (mk_thread False (mk_stdio ''ABCDEF'' 8 [] 0 False)) ''wxyz''
     = Some (2, mk_thread True
         ((mk_stdio ''ABCDEFwx'' 8 [] 0 True)\<lparr>woken := [Input_wait, Input_wait, Output_wait]\<rparr>)) \<and>
   data (input_buf (mk_stdio ''ABCDEFwx'' 8 [] 0 True)) = ''ABCDEF'' @ take (nat 2) ''wxyz''"
proof -
  note ev = mk_thread_def mk_stdio_def thread_with_stdio_write_def
    thread_with_stdio_write_step_def darray_make_room_gfp_def darray_room_def nr_def
    ok_access_def fault_in_bytes_def wake_up_def Let_def
    stdio_redirect_has_input_space_def thread_with_stdio_done_def
  note t = write_after_close
  have 1: "done_thr (thr (mk_thread True (mk_stdio ''ab'' 8 [] 0 True)))" "''xyz'' \<noteq> []"
    "done_stdio (mk_stdio [] 0 ''ab'' 8 True)" "(0::int) < 2" "nat 2 \<le> length ''xyz''"
    "data (input_buf (mk_stdio ''ABCDEFwx'' 8 [] 0 True)) = ''ABCDEF'' @ take (nat 2) ''wxyz''"
    by (simp_all add: ev)
  have a: "thread_with_stdio_write STDIO_REDIRECT_BUFSIZE roundup_pow_of_two [ok_access] [] True
     (mk_thread True (mk_stdio ''ab'' 8 [] 0 True)) ''xyz''
     = Some (- EPIPE, mk_thread True (mk_stdio ''ab'' 8 [] 0 True))"
    using t [where t = "mk_thread True (mk_stdio ''ab'' 8 [] 0 True)" and ubuf = "''xyz''",
        THEN conjunct1] 1(1,2) by blast
  have b: "stdio_redirect_vprintf STDIO_REDIRECT_BUFSIZE roundup_pow_of_two [True] []
     (mk_stdio [] 0 ''ab'' 8 True) True ''hello'' = Some (mk_stdio [] 0 ''ab'' 8 True)"
    using t [where s = "mk_stdio [] 0 ''ab'' 8 True",
        THEN conjunct2, THEN conjunct2, THEN conjunct1] 1(3) by blast
  have c: "thread_with_stdio_write 8 roundup_pow_of_two [ok_access, ok_access] [] True
     (mk_thread False (mk_stdio ''ABCDEF'' 8 [] 0 False)) ''xyz''
     = Some (2, mk_thread False ((mk_stdio ''ABCDEFxy'' 8 [] 0 False)\<lparr>woken := [Input_wait]\<rparr>))"
    by (simp add: ev)
  have d: "thread_with_stdio_write_loop 8 roundup_pow_of_two [ok_access, ok_access]
     [Act thread_with_stdio_done] True
     (mk_thread False (mk_stdio ''ABCDEF'' 8 [] 0 False)) ''wxyz'' 0
     = Some (2, - EAGAIN,
         mk_thread False ((mk_stdio ''ABCDEFwx'' 8 [] 0 False)\<lparr>woken := [Input_wait]\<rparr>))"
    by (simp add: ev)
  have e: "wait_event_interruptible (\<lambda>t. stdio_redirect_has_input_space 8 (stdio t))
     [Act thread_with_stdio_done]
     (mk_thread False ((mk_stdio ''ABCDEFwx'' 8 [] 0 False)\<lparr>woken := [Input_wait]\<rparr>))
     = Some (0, [], mk_thread True
         ((mk_stdio ''ABCDEFwx'' 8 [] 0 True)\<lparr>woken := [Input_wait, Input_wait, Output_wait]\<rparr>))"
    by (simp add: ev)
  have f: "done_thr (thr (mk_thread True
         ((mk_stdio ''ABCDEFwx'' 8 [] 0 True)\<lparr>woken := [Input_wait, Input_wait, Output_wait]\<rparr>)))"
    by (simp add: ev)
  have g: "thread_with_stdio_write 8 roundup_pow_of_two [ok_access, ok_access]
     [Act thread_with_stdio_done] False
     (mk_thread False (mk_stdio ''ABCDEF'' 8 [] 0 False)) ''wxyz''
     = Some (2, mk_thread True
         ((mk_stdio ''ABCDEFwx'' 8 [] 0 True)\<lparr>woken := [Input_wait, Input_wait, Output_wait]\<rparr>))"
    using t [where t = "mk_thread False (mk_stdio ''ABCDEF'' 8 [] 0 False)"
        and ubuf = "''wxyz''" and bufsize = 8 and grow = roundup_pow_of_two
        and us = "[ok_access, ok_access]" and sched = "[Act thread_with_stdio_done]",
        THEN conjunct2, THEN conjunct2, THEN conjunct2, THEN conjunct2, THEN conjunct2,
        THEN conjunct2, THEN spec, THEN spec, THEN spec, THEN spec, THEN spec,
        of 2 "mk_thread False ((mk_stdio ''ABCDEFwx'' 8 [] 0 False)\<lparr>woken := [Input_wait]\<rparr>)"
          0 "[]" "mk_thread True
         ((mk_stdio ''ABCDEFwx'' 8 [] 0 True)\<lparr>woken := [Input_wait, Input_wait, Output_wait]\<rparr>)"]
      d e f
    by simp
  from 1 a b c d e f g show ?thesis by simp
qed

subsection \<open>Non-blocking calls on a buffer that is not ready\<close>

text \<open>
  C9 (as stated, refuted). The claim: every non-blocking \<open>thread_with_stdio_write\<close> on
  a full input buffer of an open channel returns \<open>-EAGAIN\<close>. With the buffer full at
  capacity 8, a write of no bytes returns 0 (the loop \<open>while (len)\<close> is not entered),
  and a write of one byte from memory that cannot be faulted in returns \<open>-EFAULT\<close>
  (\<open>fault_in_readable\<close> is called before the buffer is looked at).
\<close>

theorem nonblocking_not_ready_counterexample:
  "thread_with_stdio_write 8 roundup_pow_of_two [ok_access] [] True
     (mk_thread False (mk_stdio ''ABCDEFGH'' 8 [] 0 False)) []
     = Some (0, mk_thread False (mk_stdio ''ABCDEFGH'' 8 [] 0 False)) \<and>
   thread_with_stdio_write 8 roundup_pow_of_two
     [\<lparr>fault_in = 1, alloc_ok = True, nofault_ok = True\<rparr>] [] True
     (mk_thread False (mk_stdio ''ABCDEFGH'' 8 [] 0 False)) ''I''
     = Some (- EFAULT, mk_thread False (mk_stdio ''ABCDEFGH'' 8 [] 0 False))"
  by (simp add: thread_with_stdio_write_def mk_thread_def fault_in_bytes_def)

text \<open>
  C9 (amended). A non-blocking \<open>thread_with_stdio_read\<close> on an empty output buffer of
  an open channel returns \<open>-EAGAIN\<close>. A non-blocking \<open>thread_with_stdio_write\<close> of at
  least one byte, of which at least one can be faulted in, on a full input buffer of
  an open channel returns \<open>-EAGAIN\<close>. Both leave the whole state, and so both buffers,
  unchanged. A non-blocking write of bytes none of which can be faulted in returns
  \<open>-EFAULT\<close> and changes nothing.
\<close>

theorem nonblocking_not_ready:
  "(nr (output_buf (stdio t)) = 0 \<and> \<not> done_stdio (stdio t) \<longrightarrow>
      thread_with_stdio_read us sched True t len = Some (- EAGAIN, [], t)) \<and>
   (\<not> done_thr (thr t) \<and> input_inv bufsize t \<and> bufsize \<le> nr (input_buf (stdio t)) \<and>
    ubuf \<noteq> [] \<and> fault_in u < length ubuf \<longrightarrow>
      thread_with_stdio_write bufsize grow (u # us) sched True t ubuf = Some (- EAGAIN, t)) \<and>
   (\<not> done_thr (thr t) \<and> ubuf \<noteq> [] \<and> length ubuf \<le> fault_in u \<longrightarrow>
      thread_with_stdio_write bufsize grow (u # us) sched True t ubuf = Some (- EFAULT, t))"
proof (intro conjI impI)
  assume "nr (output_buf (stdio t)) = 0 \<and> \<not> done_stdio (stdio t)"
  then show "thread_with_stdio_read us sched True t len = Some (- EAGAIN, [], t)"
    by (simp add: thread_with_stdio_read_def stdio_redirect_has_output_def errno_defs)
next
  assume a: "\<not> done_thr (thr t) \<and> input_inv bufsize t \<and> bufsize \<le> nr (input_buf (stdio t)) \<and>
    ubuf \<noteq> [] \<and> fault_in u < length ubuf"
  then have full: "\<not> nr (input_buf (stdio t)) < bufsize" "darray_room (input_buf (stdio t)) = 0"
    by (auto simp: input_inv_def darray_within_def darray_room_def)
  from a have b0: "length ubuf - fault_in_bytes u (length ubuf) \<noteq> 0"
    by (simp add: fault_in_bytes_def)
  have st: "thread_with_stdio_write_step bufsize grow u (input_buf (stdio t)) ubuf
      (length ubuf - fault_in_bytes u (length ubuf)) = (0, False, input_buf (stdio t))"
    using full by (simp add: thread_with_stdio_write_step_def)
  show "thread_with_stdio_write bufsize grow (u # us) sched True t ubuf = Some (- EAGAIN, t)"
    using a b0 st by (simp add: thread_with_stdio_write_def Let_def)
next
  assume a: "\<not> done_thr (thr t) \<and> ubuf \<noteq> [] \<and> length ubuf \<le> fault_in u"
  then show "thread_with_stdio_write bufsize grow (u # us) sched True t ubuf = Some (- EFAULT, t)"
    by (simp add: thread_with_stdio_write_def Let_def fault_in_bytes_def min_absorb2)
qed

theorem nonblocking_not_ready_witness:
  "thread_with_stdio_read [ok_access] [] True (mk_thread False (mk_stdio ''ab'' 8 [] 0 False)) 5
     = Some (- EAGAIN, [], mk_thread False (mk_stdio ''ab'' 8 [] 0 False)) \<and>
   input_inv 8 (mk_thread False (mk_stdio ''ABCDEFGH'' 8 ''xy'' 8 False)) \<and>
   thread_with_stdio_write 8 roundup_pow_of_two [ok_access] [] True
     (mk_thread False (mk_stdio ''ABCDEFGH'' 8 ''xy'' 8 False)) ''IJ''
     = Some (- EAGAIN, mk_thread False (mk_stdio ''ABCDEFGH'' 8 ''xy'' 8 False))"
  using nonblocking_not_ready [where t = "mk_thread False (mk_stdio ''ab'' 8 [] 0 False)"
      and us = "[]" and u = ok_access and sched = "[]" and len = 5 and bufsize = 8
      and ubuf = "''IJ''" and grow = roundup_pow_of_two]
    nonblocking_not_ready [where t = "mk_thread False (mk_stdio ''ABCDEFGH'' 8 ''xy'' 8 False)"
      and us = "[]" and u = ok_access and sched = "[]" and len = 5 and bufsize = 8
      and ubuf = "''IJ''" and grow = roundup_pow_of_two]
  by (simp add: mk_thread_def mk_stdio_def nr_def input_inv_def darray_within_def ok_access_def
      thread_with_stdio_read_def stdio_redirect_has_output_def)

subsection \<open>Polling a closed channel\<close>

text \<open>
  C6. When both flags are set, as they are after \<open>thread_with_stdio_done\<close>,
  \<open>thread_with_stdio_poll\<close> returns \<open>EPOLLIN\<close>, \<open>EPOLLOUT\<close>, \<open>EPOLLHUP\<close> and
  \<open>EPOLLERR\<close>, whatever the two buffers hold.
\<close>

theorem thread_with_stdio_poll_closed:
  "(done_thr (thr t) \<and> done_stdio (stdio t) \<longrightarrow>
      thread_with_stdio_poll bufsize t = EPOLLIN OR EPOLLOUT OR EPOLLHUP OR EPOLLERR) \<and>
   thread_with_stdio_poll bufsize (thread_with_stdio_done t)
     = EPOLLIN OR EPOLLOUT OR EPOLLHUP OR EPOLLERR \<and>
   EPOLLIN OR EPOLLOUT OR EPOLLHUP OR EPOLLERR = (0x1D :: 32 word)"
  by (simp add: thread_with_stdio_poll_def thread_with_stdio_done_def wake_up_def
      stdio_redirect_has_output_def stdio_redirect_has_input_space_def
      EPOLLIN_def EPOLLOUT_def EPOLLHUP_def EPOLLERR_def)

theorem thread_with_stdio_poll_closed_witness:
  "done_thr (thr (mk_thread True (mk_stdio (replicate 9 (CHR ''a'')) 16 [] 0 True))) \<and>
   done_stdio (stdio (mk_thread True (mk_stdio (replicate 9 (CHR ''a'')) 16 [] 0 True))) \<and>
   thread_with_stdio_poll 8 (mk_thread True (mk_stdio (replicate 9 (CHR ''a'')) 16 [] 0 True))
     = EPOLLIN OR EPOLLOUT OR EPOLLHUP OR EPOLLERR"
  using thread_with_stdio_poll_closed
    [of "mk_thread True (mk_stdio (replicate 9 (CHR ''a'')) 16 [] 0 True)" 8]
  by (simp add: mk_thread_def mk_stdio_def)

subsection \<open>Truncated formatted output\<close>

text \<open>
  When the text and its terminator fit, \<open>darray_vprintf\<close> appends the text. When
  they do not fit and the allocation fails, it appends what \<open>vsnprintf\<close> wrote into
  the room there was: all but one byte of the room filled with text, and a NUL.
\<close>

lemma darray_vprintf_fits:
  "length s + 1 \<le> darray_room out \<Longrightarrow>
   darray_vprintf grow allocs out s = Some (out\<lparr>data := data out @ s\<rparr>)"
  by (cases allocs) (simp_all add: vsnprintf_def)

lemma darray_vprintf_alloc_fails:
  assumes "0 < darray_room out" "darray_room out \<le> length s"
  shows "darray_vprintf grow (False # allocs) out s =
         Some (out\<lparr>data := data out @ take (darray_room out - 1) s @ [CHR 0x00]\<rparr>)"
proof -
  have "size_d out < nr out + (length s + 1)"
    using assms by (simp add: darray_room_def)
  then have m: "darray_make_room_gfp grow False out (length s + 1) = (- ENOMEM, out)"
    by (simp add: darray_make_room_gfp_def)
  have t: "take (min (length s) (darray_room out)) (take (darray_room out - 1) s @ [CHR 0x00])
      = take (darray_room out - 1) s @ [CHR 0x00]"
    using assms by (simp add: min_absorb2)
  show ?thesis
    using assms m t by (simp add: vsnprintf_def errno_defs)
qed

text \<open>
  C7 (the code differs from the claim). The claim: when a non-blocking formatted write
  cannot get room for the whole text, the bytes that do not fit are dropped and nothing
  else can be observed. On an open channel whose output holds \<open>abcd\<close> in 8 allocated
  bytes, a non-blocking \<open>stdio_redirect_vprintf\<close> of \<open>HELLO\<close> whose allocation fails
  appends \<open>HEL\<close> and a NUL byte: \<open>vsnprintf\<close> ends what it writes with a NUL, and
  \<open>out->nr += min(len, darray_room(*out))\<close> counts the NUL as data. The path that
  does not truncate adds \<open>len\<close> bytes, without the NUL.
\<close>

theorem darray_vprintf_truncation_appends_nul:
  "stdio_redirect_vprintf STDIO_REDIRECT_BUFSIZE roundup_pow_of_two [False] []
     (mk_stdio [] 0 ''abcd'' 8 False) True ''HELLO''
   = Some ((mk_stdio [] 0 (''abcdHEL'' @ [CHR 0x00]) 8 False)\<lparr>woken := [Output_wait]\<rparr>)"
  by (simp add: stdio_redirect_vprintf_def stdio_redirect_has_output_space_def mk_stdio_def
      nr_def STDIO_REDIRECT_BUFSIZE_def vsnprintf_def darray_room_def darray_make_room_gfp_def
      wake_up_def errno_defs)

subsection \<open>The closed flag\<close>

lemma read_loop_flags:
  "thread_with_stdio_read_loop us t len acc = Some (r, bs, t') \<Longrightarrow>
   thr t' = thr t \<and> done_stdio (stdio t') = done_stdio (stdio t)"
proof (induction us arbitrary: t len acc)
  case Nil
  then show ?case by (auto split: if_splits)
next
  case (Cons u us)
  show ?case
  proof (cases "len \<noteq> 0 \<and> nr (output_buf (stdio t)) \<noteq> 0 \<and> fault_in_bytes u len \<noteq> len")
    case False
    with Cons.prems show ?thesis by (auto split: if_splits)
  next
    case True
    define b where "b = min len (nr (output_buf (stdio t)))"
    show ?thesis
    proof (cases "b \<noteq> 0 \<and> nofault_ok u")
      case c: True
      with True Cons.prems have
        "thread_with_stdio_read_loop us
           (t\<lparr>stdio := (stdio t)\<lparr>output_buf := darray_remove_items (output_buf (stdio t)) b\<rparr>\<rparr>)
           (len - b) (acc @ take b (data (output_buf (stdio t)))) = Some (r, bs, t')"
        by (simp add: Let_def b_def)
      from Cons.IH [OF this] show ?thesis by simp
    next
      case c: False
      with True Cons.prems have "thread_with_stdio_read_loop us t len acc = Some (r, bs, t')"
        by (auto simp: Let_def b_def)
      from Cons.IH [OF this] show ?thesis .
    qed
  qed
qed

lemma read_closed_unchanged:
  "done_stdio s \<Longrightarrow> stdio_redirect_read sched s len = Some (- 1, [], s)"
  by (simp add: stdio_redirect_read_def wait_event_now stdio_redirect_has_input_def)

lemma readline_closed_unchanged:
  "done_stdio s \<Longrightarrow> stdio_redirect_readline sched s len = Some (- 1, [], s)"
  unfolding stdio_redirect_readline_def
  by (subst stdio_redirect_readline_again.simps)
     (simp add: wait_event_now stdio_redirect_has_input_def)

lemma vprintf_closed_unchanged:
  "done_stdio s \<Longrightarrow> stdio_redirect_vprintf bufsize grow allocs sched s nb str = Some s"
  by (simp add: stdio_redirect_vprintf_def wait_event_now stdio_redirect_has_output_space_def)

lemma handle_read_closed:
  assumes "closed t" "thread_with_stdio_read us sched nb t len = Some (r, bs, t')"
  shows "closed t'"
proof -
  have ho: "stdio_redirect_has_output (stdio t)"
    using assms(1) by (simp add: closed_def stdio_redirect_has_output_def)
  then have w: "wait_event_interruptible (\<lambda>t. stdio_redirect_has_output (stdio t)) sched t
      = Some (0, sched, t)"
    by (simp add: wait_event_interruptible_now)
  from assms(2) ho w obtain r' where
    "thread_with_stdio_read_loop us t len [] = Some (r', bs, t')"
    by (auto simp: thread_with_stdio_read_def split: if_splits option.splits)
  from read_loop_flags [OF this] assms(1) show ?thesis by (simp add: closed_def)
qed

lemma handle_write_closed:
  assumes "closed t" "thread_with_stdio_write bufsize grow us sched nb t ubuf = Some (r, t')"
  shows "t' = t"
proof (cases "ubuf = []")
  case True
  with assms(2) show ?thesis by (simp add: thread_with_stdio_write_def write_loop_empty)
next
  case False
  with assms show ?thesis by (simp add: thread_with_stdio_write_def write_loop_done closed_def)
qed

text \<open>
  C8. \<open>thread_with_stdio_done\<close> sets both flags, calls \<open>wake_up\<close> on the input and on
  the output wait queue and leaves the buffers as they are; a second call changes
  nothing but calls the two \<open>wake_up\<close> again. \<open>thread_with_stdio_fn\<close> and
  \<open>thread_with_stdio_release\<close> leave the handle closed. No function opens a closed
  channel: on a closed channel \<open>stdio_redirect_read\<close>, \<open>stdio_redirect_readline\<close> and
  \<open>stdio_redirect_vprintf\<close> return with the state unchanged, \<open>thread_with_stdio_write\<close>
  returns with the state unchanged, and after \<open>thread_with_stdio_read\<close> and
  \<open>run_thread_with_stdio\<close> the handle is still closed.
\<close>

theorem closed_flag_monotonic:
  "closed (thread_with_stdio_done t) \<and>
   woken (stdio (thread_with_stdio_done t)) = woken (stdio t) @ [Input_wait, Output_wait] \<and>
   input_buf (stdio (thread_with_stdio_done t)) = input_buf (stdio t) \<and>
   output_buf (stdio (thread_with_stdio_done t)) = output_buf (stdio t) \<and>
   thread_with_stdio_done (thread_with_stdio_done t) =
     (thread_with_stdio_done t)
       \<lparr>stdio := (stdio (thread_with_stdio_done t))
          \<lparr>woken := woken (stdio (thread_with_stdio_done t)) @ [Input_wait, Output_wait]\<rparr>\<rparr> \<and>
   closed (snd (thread_with_stdio_fn fn t)) \<and>
   closed (fst (snd (thread_with_stdio_release t))) \<and>
   (done_stdio s \<longrightarrow>
      stdio_redirect_read sched s len = Some (- 1, [], s) \<and>
      stdio_redirect_readline sched s len = Some (- 1, [], s) \<and>
      stdio_redirect_vprintf bufsize grow allocs sched s nb str = Some s) \<and>
   (closed t \<longrightarrow>
      (\<forall>r bs t'. thread_with_stdio_read us sched' nb t len = Some (r, bs, t') \<longrightarrow> closed t') \<and>
      (\<forall>r t'. thread_with_stdio_write bufsize grow us sched' nb t ubuf = Some (r, t') \<longrightarrow> t' = t) \<and>
      closed (fst (snd (run_thread_with_stdio kt gfd af t))))"
proof (intro conjI impI allI)
  show "closed (thread_with_stdio_done t)"
    by (simp add: closed_def thread_with_stdio_done_def wake_up_def)
  show "woken (stdio (thread_with_stdio_done t)) = woken (stdio t) @ [Input_wait, Output_wait]"
    by (simp add: thread_with_stdio_done_def wake_up_def)
  show "input_buf (stdio (thread_with_stdio_done t)) = input_buf (stdio t)"
    by (simp add: thread_with_stdio_done_def wake_up_def)
  show "output_buf (stdio (thread_with_stdio_done t)) = output_buf (stdio t)"
    by (simp add: thread_with_stdio_done_def wake_up_def)
  show "thread_with_stdio_done (thread_with_stdio_done t) =
     (thread_with_stdio_done t)
       \<lparr>stdio := (stdio (thread_with_stdio_done t))
          \<lparr>woken := woken (stdio (thread_with_stdio_done t)) @ [Input_wait, Output_wait]\<rparr>\<rparr>"
    by (simp add: thread_with_stdio_done_def wake_up_def)
  show "closed (snd (thread_with_stdio_fn fn t))"
    by (simp add: closed_def thread_with_stdio_fn_def thread_with_stdio_done_def wake_up_def)
  show "closed (fst (snd (thread_with_stdio_release t)))"
    by (simp add: closed_def thread_with_stdio_release_def thread_with_stdio_done_def
        wake_up_def Let_def)
next
  assume "done_stdio s"
  then show "stdio_redirect_read sched s len = Some (- 1, [], s)"
    "stdio_redirect_readline sched s len = Some (- 1, [], s)"
    "stdio_redirect_vprintf bufsize grow allocs sched s nb str = Some s"
    by (simp_all add: read_closed_unchanged readline_closed_unchanged vprintf_closed_unchanged)
next
  fix r bs t'
  assume "closed t" "thread_with_stdio_read us sched' nb t len = Some (r, bs, t')"
  then show "closed t'" by (rule handle_read_closed)
next
  fix r t'
  assume "closed t" "thread_with_stdio_write bufsize grow us sched' nb t ubuf = Some (r, t')"
  then show "t' = t" by (rule handle_write_closed)
next
  assume "closed t"
  then show "closed (fst (snd (run_thread_with_stdio kt gfd af t)))"
    by (simp add: closed_def run_thread_with_stdio_def run_thread_with_file_def Let_def
        split: prod.splits if_splits)
qed

theorem closed_flag_monotonic_witness:
  "done_stdio (mk_stdio ''ab'' 8 ''xy'' 8 True) \<and>
   stdio_redirect_read [] (mk_stdio ''ab'' 8 ''xy'' 8 True) 1
     = Some (- 1, [], mk_stdio ''ab'' 8 ''xy'' 8 True) \<and>
   closed (mk_thread True (mk_stdio ''ab'' 8 ''xy'' 8 True)) \<and>
   thread_with_stdio_read [ok_access] [] False (mk_thread True (mk_stdio ''ab'' 8 ''xy'' 8 True)) 1
     = Some (1, ''x'', mk_thread True (mk_stdio ''ab'' 8 ''y'' 8 True)) \<and>
   closed (mk_thread True (mk_stdio ''ab'' 8 ''y'' 8 True)) \<and>
   thread_with_stdio_done (mk_thread False (mk_stdio ''ab'' 8 ''xy'' 8 False))
     = mk_thread True ((mk_stdio ''ab'' 8 ''xy'' 8 True)\<lparr>woken := [Input_wait, Output_wait]\<rparr>)"
  using closed_flag_monotonic [where s = "mk_stdio ''ab'' 8 ''xy'' 8 True" and sched = "[]"
      and len = 1 and t = "mk_thread True (mk_stdio ''ab'' 8 ''xy'' 8 True)"
      and us = "[ok_access]" and sched' = "[]" and nb = False]
  by (simp add: closed_def mk_thread_def mk_stdio_def thread_with_stdio_read_def
      stdio_redirect_has_output_def nr_def ok_access_def fault_in_bytes_def
      darray_remove_items_def thread_with_stdio_done_def wake_up_def Let_def)

subsection \<open>Starting the thread\<close>

lemma PTR_ERR_OR_ZERO_Ptr [simp]: "PTR_ERR_OR_ZERO (Ptr p) = 0"
  by (simp add: PTR_ERR_OR_ZERO_def)

lemma PTR_ERR_OR_ZERO_IS_ERR: "IS_ERR p \<Longrightarrow> PTR_ERR_OR_ZERO p < 0 \<and> PTR_ERR_OR_ZERO p \<noteq> 0"
  by (cases p) (auto simp: PTR_ERR_OR_ZERO_def IS_ERR_def)

text \<open>
  C10. Let \<open>kthread_create\<close> have returned the task \<open>p\<close>. If \<open>get_unused_fd_flags\<close>
  fails (\<open>gfd < 0\<close>) or \<open>anon_inode_getfile\<close> returns an error pointer, then
  \<open>run_thread_with_file\<close> returns that negative error, stops the task, releases the
  descriptor if one was reserved, installs no descriptor and does not wake the task.
  If both succeed, it returns the descriptor \<open>gfd \<ge> 0\<close>, which it has installed for the
  file, it has woken the task, and it has neither stopped the task nor released a
  descriptor.
\<close>

theorem run_thread_with_file_result:
  "(gfd < 0 \<or> IS_ERR af \<longrightarrow>
      (\<exists>r thr' ks. run_thread_with_file (Ptr p) gfd af th fops = (r, thr', ks) \<and>
         r < 0 \<and> r = (if gfd < 0 then gfd else PTR_ERR_OR_ZERO af) \<and>
         Kthread_stop (Ptr p) \<in> set ks \<and>
         (0 \<le> gfd \<longrightarrow> Put_unused_fd gfd \<in> set ks) \<and>
         (\<forall>fd f. Fd_install fd f \<notin> set ks) \<and>
         Wake_up_process (Ptr p) \<notin> set ks)) \<and>
   (0 \<le> gfd \<longrightarrow>
      (\<exists>thr' ks. run_thread_with_file (Ptr p) gfd (Ptr f) th fops = (gfd, thr', ks) \<and>
         task thr' = Ptr p \<and>
         Fd_install gfd (Ptr f) \<in> set ks \<and> Wake_up_process (Ptr p) \<in> set ks \<and>
         Kthread_stop (Ptr p) \<notin> set ks \<and> (\<forall>fd. Put_unused_fd fd \<notin> set ks)))"
proof (intro conjI impI)
  assume a: "gfd < 0 \<or> IS_ERR af"
  show "\<exists>r thr' ks. run_thread_with_file (Ptr p) gfd af th fops = (r, thr', ks) \<and>
         r < 0 \<and> r = (if gfd < 0 then gfd else PTR_ERR_OR_ZERO af) \<and>
         Kthread_stop (Ptr p) \<in> set ks \<and>
         (0 \<le> gfd \<longrightarrow> Put_unused_fd gfd \<in> set ks) \<and>
         (\<forall>fd f. Fd_install fd f \<notin> set ks) \<and>
         Wake_up_process (Ptr p) \<notin> set ks"
  proof (cases "gfd < 0")
    case True
    then show ?thesis
      by (simp add: run_thread_with_file_def run_thread_with_file_err_def Let_def)
  next
    case False
    with a have "IS_ERR af" by simp
    from PTR_ERR_OR_ZERO_IS_ERR [OF this] False show ?thesis
      by (simp add: run_thread_with_file_def run_thread_with_file_err_def Let_def)
  qed
next
  assume "0 \<le> gfd"
  then show "\<exists>thr' ks. run_thread_with_file (Ptr p) gfd (Ptr f) th fops = (gfd, thr', ks) \<and>
         task thr' = Ptr p \<and>
         Fd_install gfd (Ptr f) \<in> set ks \<and> Wake_up_process (Ptr p) \<in> set ks \<and>
         Kthread_stop (Ptr p) \<notin> set ks \<and> (\<forall>fd. Put_unused_fd fd \<notin> set ks)"
    by (simp add: run_thread_with_file_def Let_def)
qed

theorem run_thread_with_file_result_witness:
  "run_thread_with_file (Ptr 7) (- 24) (Ptr 9) \<lparr>task = NULL, ret = 5, done_thr = False\<rparr>
       \<lparr>fops_read = True, fops_write = True\<rparr>
     = (- 24, \<lparr>task = Ptr 7, ret = 0, done_thr = False\<rparr>,
        [Kthread_create, Get_unused_fd_flags (O_CLOEXEC OR O_RDWR), Kthread_stop (Ptr 7)]) \<and>
   IS_ERR (ERR_PTR (- 12) :: nat ptr) \<and>
   run_thread_with_file (Ptr 7) 3 (ERR_PTR (- 12)) \<lparr>task = NULL, ret = 5, done_thr = False\<rparr>
       \<lparr>fops_read = True, fops_write = True\<rparr>
     = (- 12, \<lparr>task = Ptr 7, ret = 0, done_thr = False\<rparr>,
        [Kthread_create, Get_unused_fd_flags (O_CLOEXEC OR O_RDWR),
         Anon_inode_getfile (O_CLOEXEC OR O_RDWR), Put_unused_fd 3, Kthread_stop (Ptr 7)]) \<and>
   run_thread_with_file (Ptr 7) 3 (Ptr 9) \<lparr>task = NULL, ret = 5, done_thr = False\<rparr>
       \<lparr>fops_read = True, fops_write = True\<rparr>
     = (3, \<lparr>task = Ptr 7, ret = 0, done_thr = False\<rparr>,
        [Kthread_create, Get_unused_fd_flags (O_CLOEXEC OR O_RDWR),
         Anon_inode_getfile (O_CLOEXEC OR O_RDWR), Get_task_struct (Ptr 7),
         Wake_up_process (Ptr 7), Fd_install 3 (Ptr 9)])"
  using run_thread_with_file_result [where gfd = "- 24" and af = "Ptr 9" and p = 7 and f = 9
      and th = "\<lparr>task = NULL, ret = 5, done_thr = False\<rparr>"
      and fops = "\<lparr>fops_read = True, fops_write = True\<rparr>"]
    run_thread_with_file_result [where gfd = 3 and af = "ERR_PTR (- 12)" and p = 7 and f = 9
      and th = "\<lparr>task = NULL, ret = 5, done_thr = False\<rparr>"
      and fops = "\<lparr>fops_read = True, fops_write = True\<rparr>"]
  by (simp add: run_thread_with_file_def run_thread_with_file_err_def Let_def IS_ERR_def
      PTR_ERR_OR_ZERO_def MAX_ERRNO_def)

end
